theory Spec2Isabelle
  imports Main "HOL-Library.Multiset" "HOL-Library.Sublist"
begin

section \<open>Data model (src/index.tsx, type definitions)\<close>

text \<open>
  The attendance tracker of \<^verbatim>\<open>src/index.tsx\<close> (the persisted, priority-sorted variant).
  A JavaScript string is modelled as a \<^typ>\<open>string\<close>, one \<^typ>\<open>char\<close> for each code unit
  (the code units that a \<^typ>\<open>char\<close> can hold), so that \<^const>\<open>length\<close> is the
  \<^verbatim>\<open>.length\<close> of the source. A \<^verbatim>\<open>Date\<close> is its
  \<^verbatim>\<open>getTime()\<close> value, an \<^typ>\<open>int\<close> of milliseconds; \<^verbatim>\<open>new Date()\<close> is a parameter
  \<open>now\<close> of the handler that reads the clock. The interfaces \<^verbatim>\<open>Member\<close>,
  \<^verbatim>\<open>ActiveSession\<close> and \<^verbatim>\<open>LogEntry\<close> are records, each extending the previous one, so
  that \<^verbatim>\<open>{ ...s, name: newName }\<close> is a record update at every one of them.
\<close>

record member =
  name :: string

record active_session = member +
  signInTime :: int

record log_entry = active_session +
  signOutTime :: int

datatype status = SignedIn | SignedOut

text \<open>An element of \<^verbatim>\<open>sessionLog\<close>: \<^verbatim>\<open>signOutTime: Date | null\<close> and the status tag.\<close>

record session_row = active_session +
  rowSignOutTime :: "int option"
  status :: status

datatype modal_mode = Add | Edit

text \<open>
  The closures handed to \<^verbatim>\<open>openConfirmModal\<close>, one constructor for each of them;
  \<open>NoAction\<close> is the initial \<^verbatim>\<open>() => {}\<close>.
\<close>

datatype confirm_action =
    NoAction
  | DeleteAction string
  | StartNewTaskFlow string
  | ClearLogAction

text \<open>
  The state of the \<^verbatim>\<open>App\<close> component: the four persisted values and the view state
  that the handlers read. Toasts and the message of the confirmation dialog are left out:
  no handler reads them.
\<close>

record app_state =
  members :: "member list"
  activeSessions :: "active_session list"
  attendanceLog :: "log_entry list"
  taskNumber :: string
  isAddEditModalOpen :: bool
  modalMode :: "modal_mode option"
  memberNameInput :: string
  memberToEdit :: "member option"
  error :: string
  isListEditModalOpen :: bool
  editingMemberList :: "member list"
  isSignInModalOpen :: bool
  signInMemberName :: string
  isNewTaskModalOpen :: bool
  newTaskNumberInput :: string
  isConfirmModalOpen :: bool
  confirmOnConfirm :: confirm_action

section \<open>Library functions of the host language\<close>

text \<open>
  \<^verbatim>\<open>Array.prototype.sort(cmp)\<close> is a stable sort; for a consistent comparator its result
  is the stable insertion sort below. \<open>insertBy\<close> puts an element in front of the first
  element it does not compare greater than, and \<open>sortBy\<close> inserts from the right, so equal
  elements keep their order.
\<close>

fun insertBy :: "('a \<Rightarrow> 'a \<Rightarrow> int) \<Rightarrow> 'a \<Rightarrow> 'a list \<Rightarrow> 'a list" where
  "insertBy cmp x [] = [x]"
| "insertBy cmp x (y # ys) = (if cmp x y \<le> 0 then x # y # ys else y # insertBy cmp x ys)"

fun sortBy :: "('a \<Rightarrow> 'a \<Rightarrow> int) \<Rightarrow> 'a list \<Rightarrow> 'a list" where
  "sortBy cmp [] = []"
| "sortBy cmp (x # xs) = insertBy cmp x (sortBy cmp xs)"

text \<open>A list is in the order of a comparator when no element compares greater than a later one.\<close>

fun sortedBy :: "('a \<Rightarrow> 'a \<Rightarrow> int) \<Rightarrow> 'a list \<Rightarrow> bool" where
  "sortedBy cmp [] = True"
| "sortedBy cmp (x # xs) = (list_all (\<lambda>y. cmp x y \<le> 0) xs \<and> sortedBy cmp xs)"

text \<open>
  The consistency that the language standard asks of a comparator: the sign of
  \<open>cmp a b\<close> is opposite to that of \<open>cmp b a\<close>, and "not greater" is transitive.
  \<^verbatim>\<open>String.prototype.localeCompare\<close> depends on the locale of the host and is a parameter
  \<open>cmp\<close> of every handler that sorts by name; \<^verbatim>\<open>toLowerCase\<close> is a parameter
  \<open>lower\<close>.
\<close>

definition consistent :: "('a \<Rightarrow> 'a \<Rightarrow> int) \<Rightarrow> bool" where
  "consistent cmp \<longleftrightarrow>
     (\<forall>a b. (cmp a b < 0) = (0 < cmp b a)) \<and>
     (\<forall>a b c. cmp a b \<le> 0 \<and> cmp b c \<le> 0 \<longrightarrow> cmp a c \<le> 0)"

text \<open>\<^verbatim>\<open>(a, b) => a.name.localeCompare(b.name)\<close>\<close>

definition byName :: "(string \<Rightarrow> string \<Rightarrow> int) \<Rightarrow> 'a member_scheme \<Rightarrow> 'a member_scheme \<Rightarrow> int" where
  "byName cmp a b = cmp (name a) (name b)"

text \<open>
  \<^verbatim>\<open>String.prototype.trim\<close>: the white space and line terminators that have a code unit
  below 256 are removed from both ends.
\<close>

definition isWhiteSpace :: "char \<Rightarrow> bool" where
  "isWhiteSpace c \<longleftrightarrow>
     c \<in> set [CHR 0x09, CHR 0x0A, CHR 0x0B, CHR 0x0C, CHR 0x0D, CHR 0x20, CHR 0xA0]"

definition trim :: "string \<Rightarrow> string" where
  "trim s = rev (dropWhile isWhiteSpace (rev (dropWhile isWhiteSpace s)))"

text \<open>\<^verbatim>\<open>s.padEnd(n, ' ')\<close> and \<^verbatim>\<open>'-'.repeat(n)\<close>\<close>

definition padEnd :: "string \<Rightarrow> nat \<Rightarrow> string" where
  "padEnd s n = s @ replicate (n - length s) CHR '' ''"

definition repeat :: "char \<Rightarrow> nat \<Rightarrow> string" where
  "repeat c n = replicate n c"

definition nl :: string where
  "nl = [CHR 0x0A]"

section \<open>Constants\<close>

definition PREDEFINED_MEMBERS :: "string list" where
  "PREDEFINED_MEMBERS =
    [''Andres Dean'', ''Barry Savitskoff'', ''Ben Peach'', ''Bill Sperling'', ''Brad Siemens'',
     ''Brennan Zorn'', ''Cavan Gates'', ''Chris Williams'', ''Christina Mavinic'', ''Clayton Marr'',
     ''Connie Bielert'', ''David Bryan'', ''Derek Pankoff'', ''Duke Enns'', ''Duncan Redfearn'',
     ''Erik Skaaning'', ''Erin Peach'', ''Graham Watt'', ''Grant Burnard'', ''Jackie Schott'',
     ''Jason Hall'', ''Jason Hugh'', ''Jennifer Erlendson'', ''John Wheeler'', ''John Younk'',
     ''Jon Wilson'', ''Justin Darbyshire'', ''Ken Lazeroff'', ''Kristina Anderson'', ''Madeline Williams'',
     ''Michael Slatnik'', ''Nathan Hein'', ''Nicky Winn'', ''Rebecca Massey'', ''Rocky Olsen'',
     ''Scott Lamont'', ''Skye Fletcher'', ''Spencer Novokshonoff'', ''Steve Danshin'', ''Trevor Carson'',
     ''Tyrell Polzin'']"

definition sortedPredefinedMembers :: "(string \<Rightarrow> string \<Rightarrow> int) \<Rightarrow> member list" where
  "sortedPredefinedMembers cmp =
     sortBy (byName cmp) (map (\<lambda>n. \<lparr>name = n\<rparr>) PREDEFINED_MEMBERS)"

text \<open>The state of the first render when nothing is stored: the defaults of every hook.\<close>

definition initialState :: "(string \<Rightarrow> string \<Rightarrow> int) \<Rightarrow> app_state" where
  "initialState cmp =
     \<lparr>members = sortedPredefinedMembers cmp, activeSessions = [], attendanceLog = [],
      taskNumber = [],
      isAddEditModalOpen = False, modalMode = None, memberNameInput = [],
      memberToEdit = None, error = [],
      isListEditModalOpen = False, editingMemberList = [],
      isSignInModalOpen = False, signInMemberName = [],
      isNewTaskModalOpen = False, newTaskNumberInput = [],
      isConfirmModalOpen = False, confirmOnConfirm = NoAction\<rparr>"

section \<open>Modal controls\<close>

definition openConfirmModal :: "confirm_action \<Rightarrow> app_state \<Rightarrow> app_state" where
  "openConfirmModal onConfirm st = st\<lparr>confirmOnConfirm := onConfirm, isConfirmModalOpen := True\<rparr>"

definition closeConfirmModal :: "app_state \<Rightarrow> app_state" where
  "closeConfirmModal st = st\<lparr>isConfirmModalOpen := False\<rparr>"

definition openAddEditModal :: "modal_mode \<Rightarrow> member option \<Rightarrow> app_state \<Rightarrow> app_state" where
  "openAddEditModal mode mem st =
     (let st1 = st\<lparr>modalMode := Some mode, isAddEditModalOpen := True, error := []\<rparr>
      in case (mode, mem) of
           (Edit, Some m) \<Rightarrow> st1\<lparr>memberToEdit := Some m, memberNameInput := name m\<rparr>
         | _ \<Rightarrow> st1\<lparr>memberNameInput := [], memberToEdit := None\<rparr>)"

definition closeAddEditModal :: "app_state \<Rightarrow> app_state" where
  "closeAddEditModal st =
     st\<lparr>isAddEditModalOpen := False, modalMode := None, memberNameInput := [],
        error := [], memberToEdit := None\<rparr>"

definition openListEditModal :: "app_state \<Rightarrow> app_state" where
  "openListEditModal st = st\<lparr>editingMemberList := members st, isListEditModalOpen := True\<rparr>"

definition closeListEditModal :: "app_state \<Rightarrow> app_state" where
  "closeListEditModal st = st\<lparr>isListEditModalOpen := False, editingMemberList := []\<rparr>"

text \<open>
  \<^verbatim>\<open>members.filter(m => !activeSessions.some(s => s.name === m.name))\<close>: the candidates
  offered for sign-in, computed by \<^verbatim>\<open>openSignInModal\<close> and again at every render.
\<close>

definition availableMembersForSignIn :: "app_state \<Rightarrow> member list" where
  "availableMembersForSignIn st =
     filter (\<lambda>m. \<not> list_ex (\<lambda>s. name s = name m) (activeSessions st)) (members st)"

definition openSignInModal :: "app_state \<Rightarrow> app_state" where
  "openSignInModal st =
     st\<lparr>signInMemberName :=
          (case availableMembersForSignIn st of [] \<Rightarrow> [] | m # _ \<Rightarrow> name m),
        isSignInModalOpen := True\<rparr>"

definition closeSignInModal :: "app_state \<Rightarrow> app_state" where
  "closeSignInModal st = st\<lparr>isSignInModalOpen := False, signInMemberName := []\<rparr>"

text \<open>
  \<^verbatim>\<open>generateDefaultTaskNumber()\<close> formats the date of the day; its result is the parameter
  \<open>dflt\<close>.
\<close>

definition startNewTaskFlow :: "string \<Rightarrow> app_state \<Rightarrow> app_state" where
  "startNewTaskFlow dflt st = st\<lparr>newTaskNumberInput := dflt, isNewTaskModalOpen := True\<rparr>"

definition openNewTaskModal :: "string \<Rightarrow> app_state \<Rightarrow> app_state" where
  "openNewTaskModal dflt st =
     (if 0 < length (activeSessions st) \<or> 0 < length (attendanceLog st)
      then openConfirmModal (StartNewTaskFlow dflt) st
      else startNewTaskFlow dflt st)"

definition closeNewTaskModal :: "app_state \<Rightarrow> app_state" where
  "closeNewTaskModal st = st\<lparr>isNewTaskModalOpen := False, newTaskNumberInput := []\<rparr>"

section \<open>Core logic handlers\<close>

text \<open>
  \<^verbatim>\<open>handleSignIn\<close> reads the selected name from the state. An empty string is falsy, so the
  handler returns at once; otherwise the new session is appended and the collection sorted.
\<close>

definition handleSignIn :: "(string \<Rightarrow> string \<Rightarrow> int) \<Rightarrow> int \<Rightarrow> app_state \<Rightarrow> app_state" where
  "handleSignIn cmp now st =
     (if signInMemberName st = [] then st
      else
        let newSession = \<lparr>name = signInMemberName st, signInTime = now\<rparr>
        in closeSignInModal
             (st\<lparr>activeSessions := sortBy (byName cmp) (activeSessions st @ [newSession])\<rparr>))"

definition handleSignOut :: "string \<Rightarrow> int \<Rightarrow> app_state \<Rightarrow> app_state" where
  "handleSignOut memberName now st =
     (case find (\<lambda>s. name s = memberName) (activeSessions st) of
        None \<Rightarrow> st
      | Some sessionToEnd \<Rightarrow>
          let newLogEntry =
                \<lparr>name = name sessionToEnd, signInTime = signInTime sessionToEnd,
                 signOutTime = now\<rparr>
          in st\<lparr>attendanceLog := newLogEntry # attendanceLog st,
                activeSessions := filter (\<lambda>s. name s \<noteq> memberName) (activeSessions st)\<rparr>)"

text \<open>
  \<^verbatim>\<open>member.name !== memberToEdit?.name\<close>: with no member to edit the right-hand side is
  \<^verbatim>\<open>undefined\<close>, which differs from every string.
\<close>

definition isDuplicate :: "(string \<Rightarrow> string) \<Rightarrow> app_state \<Rightarrow> string \<Rightarrow> bool" where
  "isDuplicate lower st trimmedName =
     list_ex (\<lambda>m. lower (name m) = lower trimmedName \<and>
                  (modalMode st = Some Add \<or>
                   (modalMode st = Some Edit \<and> Some (name m) \<noteq> map_option name (memberToEdit st))))
       (members st)"

definition renameTo :: "string \<Rightarrow> string \<Rightarrow> 'a member_scheme \<Rightarrow> 'a member_scheme" where
  "renameTo oldName newName m = (if name m = oldName then m\<lparr>name := newName\<rparr> else m)"

definition handleSaveMember ::
  "(string \<Rightarrow> string \<Rightarrow> int) \<Rightarrow> (string \<Rightarrow> string) \<Rightarrow> app_state \<Rightarrow> app_state" where
  "handleSaveMember cmp lower st =
     (let trimmedName = trim (memberNameInput st) in
      if trimmedName = [] then st\<lparr>error := ''Member name cannot be empty.''\<rparr>
      else if isDuplicate lower st trimmedName
      then st\<lparr>error := ''A member with this name already exists.''\<rparr>
      else if modalMode st = Some Add then
        closeAddEditModal
          (st\<lparr>members := sortBy (byName cmp) (members st @ [\<lparr>name = trimmedName\<rparr>])\<rparr>)
      else if modalMode st = Some Edit \<and> memberToEdit st \<noteq> None then
        (let oldName = name (the (memberToEdit st)); newName = trimmedName in
         closeAddEditModal
           (st\<lparr>members := sortBy (byName cmp) (map (renameTo oldName newName) (members st)),
               activeSessions :=
                 sortBy (byName cmp) (map (renameTo oldName newName) (activeSessions st)),
               attendanceLog := map (renameTo oldName newName) (attendanceLog st)\<rparr>))
      else closeAddEditModal st)"

definition deleteAction :: "string \<Rightarrow> app_state \<Rightarrow> app_state" where
  "deleteAction memberNameToDelete st =
     closeAddEditModal
       (st\<lparr>members := filter (\<lambda>m. name m \<noteq> memberNameToDelete) (members st),
           activeSessions := filter (\<lambda>s. name s \<noteq> memberNameToDelete) (activeSessions st),
           attendanceLog := filter (\<lambda>l. name l \<noteq> memberNameToDelete) (attendanceLog st)\<rparr>)"

definition handleDeleteMember :: "app_state \<Rightarrow> app_state" where
  "handleDeleteMember st =
     (case memberToEdit st of
        None \<Rightarrow> st
      | Some m \<Rightarrow> openConfirmModal (DeleteAction (name m)) st)"

definition handleRemoveMemberFromEditList :: "string \<Rightarrow> app_state \<Rightarrow> app_state" where
  "handleRemoveMemberFromEditList memberName st =
     st\<lparr>editingMemberList := filter (\<lambda>m. name m \<noteq> memberName) (editingMemberList st)\<rparr>"

definition handleSaveMemberList :: "(string \<Rightarrow> string \<Rightarrow> int) \<Rightarrow> app_state \<Rightarrow> app_state" where
  "handleSaveMemberList cmp st =
     (let updatedMembers =
            sortBy (byName cmp) (map (\<lambda>m. \<lparr>name = name m\<rparr>) (editingMemberList st))
      in closeListEditModal
           (st\<lparr>members := updatedMembers, activeSessions := [], attendanceLog := []\<rparr>))"

definition handleStartNewTask :: "app_state \<Rightarrow> app_state" where
  "handleStartNewTask st =
     (let trimmedTaskNumber = trim (newTaskNumberInput st) in
      if trimmedTaskNumber = [] then st
      else closeNewTaskModal
             (st\<lparr>taskNumber := trimmedTaskNumber, activeSessions := [], attendanceLog := []\<rparr>))"

definition clearLogAction :: "app_state \<Rightarrow> app_state" where
  "clearLogAction st = st\<lparr>activeSessions := [], attendanceLog := []\<rparr>"

definition handleClearLog :: "app_state \<Rightarrow> app_state" where
  "handleClearLog st =
     (if length (activeSessions st) = 0 \<and> length (attendanceLog st) = 0 then st
      else openConfirmModal ClearLogAction st)"

text \<open>\<^verbatim>\<open>handleConfirm\<close> runs the stored closure, then closes the dialog.\<close>

fun runConfirm :: "confirm_action \<Rightarrow> app_state \<Rightarrow> app_state" where
  "runConfirm NoAction st = st"
| "runConfirm (DeleteAction n) st = deleteAction n st"
| "runConfirm (StartNewTaskFlow dflt) st = startNewTaskFlow dflt st"
| "runConfirm ClearLogAction st = clearLogAction st"

definition handleConfirm :: "app_state \<Rightarrow> app_state" where
  "handleConfirm st = closeConfirmModal (runConfirm (confirmOnConfirm st) st)"

section \<open>Log transformation\<close>

definition allActiveSessions :: "app_state \<Rightarrow> session_row list" where
  "allActiveSessions st =
     map (\<lambda>s. \<lparr>name = name s, signInTime = signInTime s, rowSignOutTime = None, status = SignedIn\<rparr>)
       (activeSessions st)"

definition allPastSessions :: "app_state \<Rightarrow> session_row list" where
  "allPastSessions st =
     map (\<lambda>l. \<lparr>name = name l, signInTime = signInTime l, rowSignOutTime = Some (signOutTime l),
              status = SignedOut\<rparr>)
       (attendanceLog st)"

definition sessionCompare :: "session_row \<Rightarrow> session_row \<Rightarrow> int" where
  "sessionCompare a b =
     (if status a = SignedIn \<and> status b \<noteq> SignedIn then - 1
      else if status b = SignedIn \<and> status a \<noteq> SignedIn then 1
      else signInTime b - signInTime a)"

definition sessionLog :: "app_state \<Rightarrow> session_row list" where
  "sessionLog st = sortBy sessionCompare (allActiveSessions st @ allPastSessions st)"

section \<open>Export\<close>

text \<open>
  \<^verbatim>\<open>formatDateTime\<close> returns the empty string for \<^verbatim>\<open>null\<close> and the host's
  \<^verbatim>\<open>toLocaleString\<close> rendering otherwise; the rendering is the parameter \<open>toLocale\<close>.
\<close>

fun formatDateTime :: "(int \<Rightarrow> string) \<Rightarrow> int option \<Rightarrow> string" where
  "formatDateTime toLocale None = []"
| "formatDateTime toLocale (Some date) = toLocale date"

fun statusText :: "status \<Rightarrow> string" where
  "statusText SignedIn = ''Signed In''"
| "statusText SignedOut = ''Signed Out''"

text \<open>\<^verbatim>\<open>Math.max(...sessionLog.map(e => e.name.length), 'Member'.length)\<close>\<close>

definition maxNameLength :: "session_row list \<Rightarrow> nat" where
  "maxNameLength rows = foldr max (map (\<lambda>e. length (name e)) rows) (length ''Member'')"

text \<open>The line that the body of \<^verbatim>\<open>sessionLog.forEach\<close> appends for one session.\<close>

definition exportRow :: "(int \<Rightarrow> string) \<Rightarrow> nat \<Rightarrow> session_row \<Rightarrow> string" where
  "exportRow toLocale w session =
     padEnd (name session) w @ '' | '' @
     padEnd (statusText (status session)) 12 @ '' | '' @
     padEnd (formatDateTime toLocale (Some (signInTime session))) 22 @ '' | '' @
     (case rowSignOutTime session of
        Some t \<Rightarrow> formatDateTime toLocale (Some t)
      | None \<Rightarrow> ''...'') @ nl"

definition exportHeader :: "string \<Rightarrow> app_state \<Rightarrow> string" where
  "exportHeader generatedOn st =
     ''Grand Forks Search and Rescue - Attendance Log'' @ nl @
     (if taskNumber st \<noteq> [] then ''Task #: '' @ taskNumber st @ nl else []) @
     ''Generated on: '' @ generatedOn @ nl @
     repeat CHR ''='' 82 @ nl @ nl"

definition exportTable :: "(int \<Rightarrow> string) \<Rightarrow> session_row list \<Rightarrow> string" where
  "exportTable toLocale rows =
     (let w = maxNameLength rows in
      padEnd ''Member'' w @ '' | '' @ padEnd ''Status'' 12 @ '' | '' @
        padEnd ''Signed In'' 22 @ '' | '' @ ''Signed Out'' @ nl @
      repeat CHR ''-'' w @ ''-+-'' @ repeat CHR ''-'' 12 @ ''-+-'' @ repeat CHR ''-'' 22 @
        ''-+-'' @ repeat CHR ''-'' 22 @ nl @
      concat (map (exportRow toLocale w) rows))"

definition noRecordsMessage :: string where
  "noRecordsMessage = ''No attendance records found.''"

text \<open>
  The \<^verbatim>\<open>content\<close> that \<^verbatim>\<open>handleDownloadLog\<close> builds; \<open>generatedOn\<close> is
  \<^verbatim>\<open>new Date().toLocaleString()\<close>.
\<close>

definition exportContent :: "(int \<Rightarrow> string) \<Rightarrow> string \<Rightarrow> app_state \<Rightarrow> string" where
  "exportContent toLocale generatedOn st =
     exportHeader generatedOn st @
     (if 0 < length (sessionLog st) then exportTable toLocale (sessionLog st)
      else nl @ noRecordsMessage @ nl)"

section \<open>The component as a state machine\<close>

text \<open>
  One event for each handler that the rendered page can call. The two handlers that read the
  clock carry its reading. The text typed into an input and the option chosen in the
  selector are arbitrary here, which allows at least every sequence the page allows.
\<close>

datatype ui_event =
    OpenSignInModal
  | SetSignInMemberName string
  | CloseSignInModal
  | HandleSignIn int
  | HandleSignOut string int
  | OpenAddEditModal modal_mode "member option"
  | SetMemberNameInput string
  | CloseAddEditModal
  | HandleSaveMember
  | HandleDeleteMember
  | HandleConfirm
  | CloseConfirmModal
  | OpenListEditModal
  | HandleRemoveMemberFromEditList string
  | CloseListEditModal
  | HandleSaveMemberList
  | OpenNewTaskModal string
  | SetNewTaskNumberInput string
  | CloseNewTaskModal
  | HandleStartNewTask
  | HandleClearLog

fun step ::
  "(string \<Rightarrow> string \<Rightarrow> int) \<Rightarrow> (string \<Rightarrow> string) \<Rightarrow> ui_event \<Rightarrow> app_state \<Rightarrow> app_state" where
  "step cmp lower OpenSignInModal st = openSignInModal st"
| "step cmp lower (SetSignInMemberName v) st = st\<lparr>signInMemberName := v\<rparr>"
| "step cmp lower CloseSignInModal st = closeSignInModal st"
| "step cmp lower (HandleSignIn now) st = handleSignIn cmp now st"
| "step cmp lower (HandleSignOut n now) st = handleSignOut n now st"
| "step cmp lower (OpenAddEditModal mode mem) st = openAddEditModal mode mem st"
| "step cmp lower (SetMemberNameInput v) st = st\<lparr>memberNameInput := v\<rparr>"
| "step cmp lower CloseAddEditModal st = closeAddEditModal st"
| "step cmp lower HandleSaveMember st = handleSaveMember cmp lower st"
| "step cmp lower HandleDeleteMember st = handleDeleteMember st"
| "step cmp lower HandleConfirm st = handleConfirm st"
| "step cmp lower CloseConfirmModal st = closeConfirmModal st"
| "step cmp lower OpenListEditModal st = openListEditModal st"
| "step cmp lower (HandleRemoveMemberFromEditList n) st = handleRemoveMemberFromEditList n st"
| "step cmp lower CloseListEditModal st = closeListEditModal st"
| "step cmp lower HandleSaveMemberList st = handleSaveMemberList cmp st"
| "step cmp lower (OpenNewTaskModal dflt) st = openNewTaskModal dflt st"
| "step cmp lower (SetNewTaskNumberInput v) st = st\<lparr>newTaskNumberInput := v\<rparr>"
| "step cmp lower CloseNewTaskModal st = closeNewTaskModal st"
| "step cmp lower HandleStartNewTask st = handleStartNewTask st"
| "step cmp lower HandleClearLog st = handleClearLog st"

fun run ::
  "(string \<Rightarrow> string \<Rightarrow> int) \<Rightarrow> (string \<Rightarrow> string) \<Rightarrow> ui_event list \<Rightarrow> app_state \<Rightarrow> app_state" where
  "run cmp lower [] st = st"
| "run cmp lower (ev # evs) st = run cmp lower evs (step cmp lower ev st)"

text \<open>The clock readings of a sequence of events, in the order in which they are taken.\<close>

fun clockReadings :: "ui_event list \<Rightarrow> int list" where
  "clockReadings [] = []"
| "clockReadings (HandleSignIn now # evs) = now # clockReadings evs"
| "clockReadings (HandleSignOut n now # evs) = now # clockReadings evs"
| "clockReadings (ev # evs) = clockReadings evs"

section \<open>Comparators used where a theorem is evaluated\<close>

text \<open>
  Comparison by code unit, and lower-casing of the letters A to Z: one consistent comparator
  and one case mapping at which the theorems below are evaluated.
\<close>

fun codeUnitCompare :: "string \<Rightarrow> string \<Rightarrow> int" where
  "codeUnitCompare [] [] = 0"
| "codeUnitCompare [] (y # ys) = - 1"
| "codeUnitCompare (x # xs) [] = 1"
| "codeUnitCompare (x # xs) (y # ys) =
     (if (of_char x :: nat) < of_char y then - 1
      else if (of_char y :: nat) < of_char x then 1
      else codeUnitCompare xs ys)"

definition asciiLowerChar :: "char \<Rightarrow> char" where
  "asciiLowerChar c =
     (case map_of (zip ''ABCDEFGHIJKLMNOPQRSTUVWXYZ'' ''abcdefghijklmnopqrstuvwxyz'') c of
        None \<Rightarrow> c
      | Some d \<Rightarrow> d)"

definition asciiLower :: "string \<Rightarrow> string" where
  "asciiLower s = map asciiLowerChar s"

section \<open>States at which the theorems are evaluated\<close>

definition oneInOneOut :: app_state where
  "oneInOneOut = (initialState codeUnitCompare)
     \<lparr>activeSessions := [\<lparr>name = ''Bob'', signInTime = 100\<rparr>],
      attendanceLog := [\<lparr>name = ''Alice'', signInTime = 50, signOutTime = 60\<rparr>]\<rparr>"

definition twoInTwoOut :: app_state where
  "twoInTwoOut = (initialState codeUnitCompare)
     \<lparr>activeSessions := [\<lparr>name = ''Ann'', signInTime = 10\<rparr>, \<lparr>name = ''Bob'', signInTime = 30\<rparr>],
      attendanceLog := [\<lparr>name = ''Cy'', signInTime = 5, signOutTime = 40\<rparr>,
                        \<lparr>name = ''Di'', signInTime = 20, signOutTime = 25\<rparr>]\<rparr>"

definition bobIn :: app_state where
  "bobIn = (initialState codeUnitCompare)
     \<lparr>members := [\<lparr>name = ''Alice''\<rparr>, \<lparr>name = ''Bob''\<rparr>],
      activeSessions := [\<lparr>name = ''Bob'', signInTime = 100\<rparr>]\<rparr>"

definition addInput :: "string \<Rightarrow> app_state" where
  "addInput v = (openAddEditModal Add None bobIn)\<lparr>memberNameInput := v\<rparr>"

definition renameBob :: app_state where
  "renameBob =
     (openAddEditModal Edit (Some \<lparr>name = ''Bob''\<rparr>)
        (bobIn\<lparr>attendanceLog := [\<lparr>name = ''Bob'', signInTime = 10, signOutTime = 20\<rparr>,
                                 \<lparr>name = ''Alice'', signInTime = 5, signOutTime = 8\<rparr>]\<rparr>))
     \<lparr>memberNameInput := '' Zed ''\<rparr>"

text \<open>
  Every active session was opened at or before the reading \<open>t\<close>, and no log entry ends
  before it starts.
\<close>

definition clockInv :: "int \<Rightarrow> app_state \<Rightarrow> bool" where
  "clockInv t st \<longleftrightarrow>
     list_all (\<lambda>s. signInTime s \<le> t) (activeSessions st) \<and>
     list_all (\<lambda>e. signInTime e \<le> signOutTime e) (attendanceLog st)"

definition messageAsName :: app_state where
  "messageAsName = (initialState codeUnitCompare)
     \<lparr>members := [\<lparr>name = ''No attendance records found.''\<rparr>],
      activeSessions := [\<lparr>name = ''No attendance records found.'', signInTime = 0\<rparr>]\<rparr>"

definition sampleLocale :: "int \<Rightarrow> string" where
  "sampleLocale t =
     (if t = 50 then ''Jan 1, 9:00 AM'' else if t = 60 then ''Jan 1, 9:30 AM''
      else ''Jan 1, 10:00 AM'')"

section \<open>Properties of the sort\<close>

lemma mset_insertBy: "mset (insertBy cmp x xs) = add_mset x (mset xs)"
  by (induction xs) auto

lemma mset_sortBy: "mset (sortBy cmp xs) = mset xs"
  by (induction xs) (auto simp: mset_insertBy)

lemma set_insertBy: "set (insertBy cmp x xs) = insert x (set xs)"
  by (induction xs) auto

lemma set_sortBy: "set (sortBy cmp xs) = set xs"
  by (induction xs) (auto simp: set_insertBy)

lemma length_insertBy: "length (insertBy cmp x xs) = Suc (length xs)"
  by (induction xs) auto

lemma length_sortBy: "length (sortBy cmp xs) = length xs"
  by (induction xs) (auto simp: length_insertBy)

lemma consistent_flip: "consistent cmp \<Longrightarrow> \<not> cmp a b \<le> 0 \<Longrightarrow> cmp b a \<le> 0"
  unfolding consistent_def by (metis not_le order_less_imp_le)

lemma consistent_trans: "consistent cmp \<Longrightarrow> cmp a b \<le> 0 \<Longrightarrow> cmp b c \<le> 0 \<Longrightarrow> cmp a c \<le> 0"
  unfolding consistent_def by blast

lemma sortedBy_insertBy:
  "consistent cmp \<Longrightarrow> sortedBy cmp xs \<Longrightarrow> sortedBy cmp (insertBy cmp x xs)"
proof (induction xs)
  case Nil
  then show ?case by simp
next
  case (Cons y ys)
  show ?case
  proof (cases "cmp x y \<le> 0")
    case True
    have "list_all (\<lambda>z. cmp x z \<le> 0) ys"
      using Cons.prems True consistent_trans [of cmp x y]
      by (auto simp: list_all_iff)
    with True Cons.prems show ?thesis by simp
  next
    case False
    then have "cmp y x \<le> 0" using Cons.prems(1) by (rule consistent_flip [rotated])
    with False Cons show ?thesis
      by (auto simp: list_all_iff set_insertBy)
  qed
qed

lemma sortedBy_sortBy: "consistent cmp \<Longrightarrow> sortedBy cmp (sortBy cmp xs)"
  by (induction xs) (auto simp: sortedBy_insertBy)

lemma sortedBy_filter: "sortedBy cmp xs \<Longrightarrow> sortedBy cmp (filter P xs)"
  by (induction xs) (auto simp: list_all_iff)

lemma sortedBy_nth:
  "sortedBy cmp xs \<Longrightarrow> i < j \<Longrightarrow> j < length xs \<Longrightarrow> cmp (xs ! i) (xs ! j) \<le> 0"
proof (induction xs arbitrary: i j)
  case Nil
  then show ?case by simp
next
  case (Cons x xs)
  then show ?case
    by (cases i; cases j) (auto simp: list_all_iff)
qed

lemma consistent_byName: "consistent cmp \<Longrightarrow> consistent (byName cmp)"
  unfolding consistent_def byName_def by blast

lemma sessionCompare_sign: "(sessionCompare a b < 0) = (0 < sessionCompare b a)"
  by (cases "status a"; cases "status b") (simp_all add: sessionCompare_def)

lemma sessionCompare_trans:
  "sessionCompare a b \<le> 0 \<Longrightarrow> sessionCompare b c \<le> 0 \<Longrightarrow> sessionCompare a c \<le> 0"
  by (cases "status a"; cases "status b"; cases "status c") (simp_all add: sessionCompare_def)

lemma consistent_sessionCompare: "consistent sessionCompare"
  unfolding consistent_def using sessionCompare_sign sessionCompare_trans by blast

section \<open>The merged view\<close>

lemma status_sessionLog_le:
  "sessionCompare a b \<le> 0 \<Longrightarrow>
     (status b = SignedIn \<longrightarrow> status a = SignedIn) \<and>
     (status a = status b \<longrightarrow> signInTime b \<le> signInTime a)"
  by (cases "status a"; cases "status b") (simp_all add: sessionCompare_def)

text \<open>
  C1. \<^verbatim>\<open>sessionLog\<close> (the merged view) holds exactly one row for every active session,
  with no sign-out time and status "Signed In", and one row for every log entry, with its
  sign-out time and status "Signed Out". No "Signed Out" row precedes a "Signed In" row, and
  among rows of equal status a later row never has a later sign-in time. With one active
  session and one log entry the active session comes first, whatever the two sign-in times.
\<close>

theorem sessionLog_order:
  "mset (sessionLog st) =
     image_mset (\<lambda>s. \<lparr>name = name s, signInTime = signInTime s, rowSignOutTime = None,
                       status = SignedIn\<rparr>) (mset (activeSessions st)) +
     image_mset (\<lambda>l. \<lparr>name = name l, signInTime = signInTime l,
                       rowSignOutTime = Some (signOutTime l), status = SignedOut\<rparr>)
       (mset (attendanceLog st)) \<and>
   (\<forall>i j. i < j \<and> j < length (sessionLog st) \<longrightarrow>
      (status (sessionLog st ! j) = SignedIn \<longrightarrow> status (sessionLog st ! i) = SignedIn) \<and>
      (status (sessionLog st ! i) = status (sessionLog st ! j) \<longrightarrow>
         signInTime (sessionLog st ! j) \<le> signInTime (sessionLog st ! i))) \<and>
   (\<forall>a l. activeSessions st = [a] \<and> attendanceLog st = [l] \<longrightarrow>
      sessionLog st =
        [\<lparr>name = name a, signInTime = signInTime a, rowSignOutTime = None, status = SignedIn\<rparr>,
         \<lparr>name = name l, signInTime = signInTime l, rowSignOutTime = Some (signOutTime l),
          status = SignedOut\<rparr>])"
proof (intro conjI allI impI)
  show "mset (sessionLog st) =
     image_mset (\<lambda>s. \<lparr>name = name s, signInTime = signInTime s, rowSignOutTime = None,
                       status = SignedIn\<rparr>) (mset (activeSessions st)) +
     image_mset (\<lambda>l. \<lparr>name = name l, signInTime = signInTime l,
                       rowSignOutTime = Some (signOutTime l), status = SignedOut\<rparr>)
       (mset (attendanceLog st))"
    by (simp add: sessionLog_def mset_sortBy allActiveSessions_def allPastSessions_def)
next
  fix i j
  assume ij: "i < j \<and> j < length (sessionLog st)"
  have "sortedBy sessionCompare (sessionLog st)"
    unfolding sessionLog_def by (rule sortedBy_sortBy [OF consistent_sessionCompare])
  then have le: "sessionCompare (sessionLog st ! i) (sessionLog st ! j) \<le> 0"
    using ij by (simp add: sortedBy_nth)
  { assume "status (sessionLog st ! j) = SignedIn"
    then show "status (sessionLog st ! i) = SignedIn"
      using status_sessionLog_le [OF le] by simp }
  { assume "status (sessionLog st ! i) = status (sessionLog st ! j)"
    then show "signInTime (sessionLog st ! j) \<le> signInTime (sessionLog st ! i)"
      using status_sessionLog_le [OF le] by simp }
next
  fix a l
  assume "activeSessions st = [a] \<and> attendanceLog st = [l]"
  then show "sessionLog st =
        [\<lparr>name = name a, signInTime = signInTime a, rowSignOutTime = None, status = SignedIn\<rparr>,
         \<lparr>name = name l, signInTime = signInTime l, rowSignOutTime = Some (signOutTime l),
          status = SignedOut\<rparr>]"
    by (simp add: sessionLog_def allActiveSessions_def allPastSessions_def sessionCompare_def)
qed

theorem sessionLog_order_witness:
  "sessionLog oneInOneOut =
     [\<lparr>name = ''Bob'', signInTime = 100, rowSignOutTime = None, status = SignedIn\<rparr>,
      \<lparr>name = ''Alice'', signInTime = 50, rowSignOutTime = Some 60, status = SignedOut\<rparr>] \<and>
   sessionLog twoInTwoOut =
     [\<lparr>name = ''Bob'', signInTime = 30, rowSignOutTime = None, status = SignedIn\<rparr>,
      \<lparr>name = ''Ann'', signInTime = 10, rowSignOutTime = None, status = SignedIn\<rparr>,
      \<lparr>name = ''Di'', signInTime = 20, rowSignOutTime = Some 25, status = SignedOut\<rparr>,
      \<lparr>name = ''Cy'', signInTime = 5, rowSignOutTime = Some 40, status = SignedOut\<rparr>] \<and>
   (0::nat) < 1 \<and> 1 < length (sessionLog twoInTwoOut) \<and>
   status (sessionLog twoInTwoOut ! 1) = SignedIn \<and>
   status (sessionLog twoInTwoOut ! 0) = status (sessionLog twoInTwoOut ! 1) \<and>
   signInTime (sessionLog twoInTwoOut ! 1) \<le> signInTime (sessionLog twoInTwoOut ! 0)"
  using sessionLog_order [of oneInOneOut] sessionLog_order [of twoInTwoOut]
  by (simp add: oneInOneOut_def twoInTwoOut_def sessionLog_def allActiveSessions_def
      allPastSessions_def sessionCompare_def)

section \<open>The comparator by code unit is consistent\<close>

lemma codeUnitCompare_sign: "(codeUnitCompare a b < 0) = (0 < codeUnitCompare b a)"
  by (induction a b rule: codeUnitCompare.induct) auto

lemma codeUnitCompare_trans:
  "codeUnitCompare a b \<le> 0 \<Longrightarrow> codeUnitCompare b c \<le> 0 \<Longrightarrow> codeUnitCompare a c \<le> 0"
proof (induction a b arbitrary: c rule: codeUnitCompare.induct)
  case 1
  then show ?case by simp
next
  case (2 y ys)
  then show ?case by (cases c) auto
next
  case (3 x xs)
  then show ?case by simp
next
  case (4 x xs y ys)
  show ?case
  proof (cases c)
    case Nil
    with 4 show ?thesis by simp
  next
    case (Cons z zs)
    with "4.prems" "4.IH" [of zs] show ?thesis
      by (auto split: if_splits)
  qed
qed

lemma consistent_codeUnitCompare: "consistent codeUnitCompare"
  unfolding consistent_def using codeUnitCompare_sign codeUnitCompare_trans by blast

section \<open>Sign-in\<close>





text \<open>
  C9. For a non-empty selected name without an active session, \<^verbatim>\<open>handleSignIn\<close> adds
  one session with that name and the clock reading, and changes neither the roster nor the
  log. Nothing is assumed about the roster, so this holds for a name that is not a member;
  membership comes only from the candidate list, which is a part of the roster.
\<close>

theorem handleSignIn_no_roster_check:
  "signInMemberName st \<noteq> [] \<and>
   \<not> list_ex (\<lambda>s. name s = signInMemberName st) (activeSessions st) \<longrightarrow>
     activeSessions (handleSignIn cmp now st) =
       sortBy (byName cmp) (activeSessions st @ [\<lparr>name = signInMemberName st, signInTime = now\<rparr>]) \<and>
     mset (activeSessions (handleSignIn cmp now st)) =
       add_mset \<lparr>name = signInMemberName st, signInTime = now\<rparr> (mset (activeSessions st)) \<and>
     members (handleSignIn cmp now st) = members st \<and>
     attendanceLog (handleSignIn cmp now st) = attendanceLog st \<and>
     set (availableMembersForSignIn st) \<subseteq> set (members st)"
  by (auto simp: handleSignIn_def closeSignInModal_def Let_def mset_sortBy
      availableMembersForSignIn_def)

theorem handleSignIn_no_roster_check_witness:
  "signInMemberName (bobIn\<lparr>signInMemberName := ''Zed''\<rparr>) \<noteq> [] \<and>
   \<not> list_ex (\<lambda>s. name s = ''Zed'') (activeSessions (bobIn\<lparr>signInMemberName := ''Zed''\<rparr>)) \<and>
   \<not> list_ex (\<lambda>m. name m = ''Zed'') (members (bobIn\<lparr>signInMemberName := ''Zed''\<rparr>)) \<and>
   activeSessions (handleSignIn codeUnitCompare 200 (bobIn\<lparr>signInMemberName := ''Zed''\<rparr>)) =
     [\<lparr>name = ''Bob'', signInTime = 100\<rparr>, \<lparr>name = ''Zed'', signInTime = 200\<rparr>] \<and>
   members (handleSignIn codeUnitCompare 200 (bobIn\<lparr>signInMemberName := ''Zed''\<rparr>)) =
     [\<lparr>name = ''Alice''\<rparr>, \<lparr>name = ''Bob''\<rparr>]"
  using handleSignIn_no_roster_check [of "bobIn\<lparr>signInMemberName := ''Zed''\<rparr>" codeUnitCompare 200]
  by (simp add: bobIn_def byName_def)

section \<open>Sign-out\<close>


lemma find_name_Some:
  "find (\<lambda>s. name s = n) xs = Some s \<Longrightarrow> s \<in> set xs \<and> name s = n"
  by (auto simp: find_Some_iff)



section \<open>Replacing the roster\<close>

lemma member_copy: "map (\<lambda>m::member. \<lparr>name = name m\<rparr>) xs = xs"
  by (induction xs) simp_all

text \<open>
  C7. \<^verbatim>\<open>handleSaveMemberList\<close> makes the roster the edited list sorted by name, the same
  members in the order of the comparator, and leaves both the active sessions and the log
  empty, whatever they held.
\<close>

theorem handleSaveMemberList_effect:
  "activeSessions (handleSaveMemberList cmp st) = [] \<and>
   attendanceLog (handleSaveMemberList cmp st) = [] \<and>
   members (handleSaveMemberList cmp st) = sortBy (byName cmp) (editingMemberList st) \<and>
   mset (members (handleSaveMemberList cmp st)) = mset (editingMemberList st) \<and>
   (consistent cmp \<longrightarrow> sortedBy (byName cmp) (members (handleSaveMemberList cmp st)))"
  by (simp add: handleSaveMemberList_def closeListEditModal_def mset_sortBy sortedBy_sortBy
      consistent_byName member_copy)

theorem handleSaveMemberList_effect_witness:
  "consistent codeUnitCompare \<and>
   members (handleSaveMemberList codeUnitCompare
      (oneInOneOut\<lparr>editingMemberList := [\<lparr>name = ''Cy''\<rparr>, \<lparr>name = ''Ann''\<rparr>]\<rparr>)) =
     [\<lparr>name = ''Ann''\<rparr>, \<lparr>name = ''Cy''\<rparr>] \<and>
   activeSessions (oneInOneOut\<lparr>editingMemberList := [\<lparr>name = ''Cy''\<rparr>, \<lparr>name = ''Ann''\<rparr>]\<rparr>) \<noteq> [] \<and>
   activeSessions (handleSaveMemberList codeUnitCompare
      (oneInOneOut\<lparr>editingMemberList := [\<lparr>name = ''Cy''\<rparr>, \<lparr>name = ''Ann''\<rparr>]\<rparr>)) = [] \<and>
   attendanceLog (handleSaveMemberList codeUnitCompare
      (oneInOneOut\<lparr>editingMemberList := [\<lparr>name = ''Cy''\<rparr>, \<lparr>name = ''Ann''\<rparr>]\<rparr>)) = [] \<and>
   sortedBy (byName codeUnitCompare) (members (handleSaveMemberList codeUnitCompare
      (oneInOneOut\<lparr>editingMemberList := [\<lparr>name = ''Cy''\<rparr>, \<lparr>name = ''Ann''\<rparr>]\<rparr>)))"
  using handleSaveMemberList_effect [of codeUnitCompare
      "oneInOneOut\<lparr>editingMemberList := [\<lparr>name = ''Cy''\<rparr>, \<lparr>name = ''Ann''\<rparr>]\<rparr>"]
    consistent_codeUnitCompare
  by (simp add: oneInOneOut_def byName_def)

section \<open>Adding a member\<close>

lemma handleSaveMember_empty:
  "trim (memberNameInput st) = [] \<Longrightarrow>
     handleSaveMember cmp lower st = st\<lparr>error := ''Member name cannot be empty.''\<rparr>"
  by (simp add: handleSaveMember_def)

lemma handleSaveMember_duplicate:
  "trim (memberNameInput st) \<noteq> [] \<Longrightarrow> isDuplicate lower st (trim (memberNameInput st)) \<Longrightarrow>
     handleSaveMember cmp lower st = st\<lparr>error := ''A member with this name already exists.''\<rparr>"
  by (simp add: handleSaveMember_def)

lemma handleSaveMember_add_ok:
  "trim (memberNameInput st) \<noteq> [] \<Longrightarrow> \<not> isDuplicate lower st (trim (memberNameInput st)) \<Longrightarrow>
   modalMode st = Some Add \<Longrightarrow>
     handleSaveMember cmp lower st =
       closeAddEditModal
         (st\<lparr>members := sortBy (byName cmp) (members st @ [\<lparr>name = trim (memberNameInput st)\<rparr>])\<rparr>)"
  by (simp add: handleSaveMember_def)

lemma isDuplicate_add:
  "modalMode st = Some Add \<Longrightarrow>
     isDuplicate lower st t = list_ex (\<lambda>m. lower (name m) = lower t) (members st)"
  by (simp add: isDuplicate_def)

lemma handleSaveMember_add_keeps_name:
  assumes "modalMode st = Some Add" "trim (memberNameInput st) \<noteq> []"
  shows "list_ex (\<lambda>m. lower (name m) = lower (trim (memberNameInput st)))
           (members (handleSaveMember cmp lower st))"
proof (cases "isDuplicate lower st (trim (memberNameInput st))")
  case True
  then show ?thesis
    using assms by (simp add: handleSaveMember_duplicate isDuplicate_add)
next
  case False
  then show ?thesis
    using assms
    by (simp add: handleSaveMember_add_ok closeAddEditModal_def list_ex_iff set_sortBy)
qed

text \<open>
  C5. In add mode \<^verbatim>\<open>handleSaveMember\<close> trims the input. If the trimmed name is empty, or
  some member's name has the same lower-case form, only the error message is set and the
  roster is unchanged. Otherwise one member with exactly the trimmed name is added, no error
  is left, and the roster is in the order of the comparator. After an add of a non-empty
  name, a second add of any input with the same trimmed lower-case form sets an error and
  leaves the roster as it was.
\<close>

theorem handleSaveMember_add:
  "modalMode st = Some Add \<longrightarrow>
   (trim (memberNameInput st) = [] \<longrightarrow>
      handleSaveMember cmp lower st = st\<lparr>error := ''Member name cannot be empty.''\<rparr>) \<and>
   (trim (memberNameInput st) \<noteq> [] \<and>
    list_ex (\<lambda>m. lower (name m) = lower (trim (memberNameInput st))) (members st) \<longrightarrow>
      handleSaveMember cmp lower st =
        st\<lparr>error := ''A member with this name already exists.''\<rparr>) \<and>
   (trim (memberNameInput st) \<noteq> [] \<and>
    \<not> list_ex (\<lambda>m. lower (name m) = lower (trim (memberNameInput st))) (members st) \<longrightarrow>
      members (handleSaveMember cmp lower st) =
        sortBy (byName cmp) (members st @ [\<lparr>name = trim (memberNameInput st)\<rparr>]) \<and>
      mset (members (handleSaveMember cmp lower st)) =
        add_mset \<lparr>name = trim (memberNameInput st)\<rparr> (mset (members st)) \<and>
      error (handleSaveMember cmp lower st) = [] \<and>
      (consistent cmp \<longrightarrow> sortedBy (byName cmp) (members (handleSaveMember cmp lower st)))) \<and>
   (\<forall>again. trim (memberNameInput st) \<noteq> [] \<and>
      lower (trim again) = lower (trim (memberNameInput st)) \<longrightarrow>
      error (handleSaveMember cmp lower
              ((openAddEditModal Add None (handleSaveMember cmp lower st))
                 \<lparr>memberNameInput := again\<rparr>)) \<noteq> [] \<and>
      members (handleSaveMember cmp lower
              ((openAddEditModal Add None (handleSaveMember cmp lower st))
                 \<lparr>memberNameInput := again\<rparr>)) =
        members (handleSaveMember cmp lower st))"
proof (intro impI conjI allI)
  assume add: "modalMode st = Some Add"
  show "handleSaveMember cmp lower st = st\<lparr>error := ''Member name cannot be empty.''\<rparr>"
    if "trim (memberNameInput st) = []"
    using that by (rule handleSaveMember_empty)
  show "handleSaveMember cmp lower st = st\<lparr>error := ''A member with this name already exists.''\<rparr>"
    if "trim (memberNameInput st) \<noteq> [] \<and>
        list_ex (\<lambda>m. lower (name m) = lower (trim (memberNameInput st))) (members st)"
    using that add by (simp add: handleSaveMember_duplicate isDuplicate_add)
  { assume ok: "trim (memberNameInput st) \<noteq> [] \<and>
        \<not> list_ex (\<lambda>m. lower (name m) = lower (trim (memberNameInput st))) (members st)"
    then have eq: "handleSaveMember cmp lower st =
       closeAddEditModal
         (st\<lparr>members := sortBy (byName cmp) (members st @ [\<lparr>name = trim (memberNameInput st)\<rparr>])\<rparr>)"
      using add by (simp add: handleSaveMember_add_ok isDuplicate_add)
    show "members (handleSaveMember cmp lower st) =
        sortBy (byName cmp) (members st @ [\<lparr>name = trim (memberNameInput st)\<rparr>])"
      by (simp add: eq closeAddEditModal_def)
    show "mset (members (handleSaveMember cmp lower st)) =
        add_mset \<lparr>name = trim (memberNameInput st)\<rparr> (mset (members st))"
      by (simp add: eq closeAddEditModal_def mset_sortBy)
    show "error (handleSaveMember cmp lower st) = []"
      by (simp add: eq closeAddEditModal_def)
    show "sortedBy (byName cmp) (members (handleSaveMember cmp lower st))" if "consistent cmp"
      using that by (simp add: eq closeAddEditModal_def sortedBy_sortBy consistent_byName) }
  fix again
  assume again: "trim (memberNameInput st) \<noteq> [] \<and>
      lower (trim again) = lower (trim (memberNameInput st))"
  define st1 where "st1 = handleSaveMember cmp lower st"
  define st2 where "st2 = (openAddEditModal Add None st1)\<lparr>memberNameInput := again\<rparr>"
  have ex: "list_ex (\<lambda>m. lower (name m) = lower (trim again)) (members st1)"
    using handleSaveMember_add_keeps_name [OF add, of lower cmp] again by (simp add: st1_def)
  have st2: "modalMode st2 = Some Add" "members st2 = members st1" "memberNameInput st2 = again"
    by (simp_all add: st2_def openAddEditModal_def)
  have "error (handleSaveMember cmp lower st2) \<noteq> [] \<and>
        members (handleSaveMember cmp lower st2) = members st1"
  proof (cases "trim again = []")
    case True
    then show ?thesis using st2 by (simp add: handleSaveMember_empty)
  next
    case False
    then show ?thesis using st2 ex
      by (simp add: handleSaveMember_duplicate isDuplicate_add)
  qed
  then show "error (handleSaveMember cmp lower
              ((openAddEditModal Add None (handleSaveMember cmp lower st))
                 \<lparr>memberNameInput := again\<rparr>)) \<noteq> []"
    and "members (handleSaveMember cmp lower
              ((openAddEditModal Add None (handleSaveMember cmp lower st))
                 \<lparr>memberNameInput := again\<rparr>)) =
        members (handleSaveMember cmp lower st)"
    by (simp_all add: st1_def st2_def)
qed


theorem handleSaveMember_add_witness:
  "modalMode (addInput '' Carl  '') = Some Add \<and>
   trim (memberNameInput (addInput '' Carl  '')) = ''Carl'' \<and>
   \<not> list_ex (\<lambda>m. asciiLower (name m) = asciiLower ''Carl'') (members (addInput '' Carl  '')) \<and>
   members (handleSaveMember codeUnitCompare asciiLower (addInput '' Carl  '')) =
     [\<lparr>name = ''Alice''\<rparr>, \<lparr>name = ''Bob''\<rparr>, \<lparr>name = ''Carl''\<rparr>] \<and>
   consistent codeUnitCompare \<and>
   sortedBy (byName codeUnitCompare)
     (members (handleSaveMember codeUnitCompare asciiLower (addInput '' Carl  ''))) \<and>
   asciiLower (trim ''CARL'') = asciiLower (trim '' Carl  '') \<and>
   error (handleSaveMember codeUnitCompare asciiLower
            ((openAddEditModal Add None
                (handleSaveMember codeUnitCompare asciiLower (addInput '' Carl  '')))
               \<lparr>memberNameInput := ''CARL''\<rparr>)) \<noteq> [] \<and>
   trim (memberNameInput (addInput ''   '')) = [] \<and>
   handleSaveMember codeUnitCompare asciiLower (addInput ''   '') =
     (addInput ''   '')\<lparr>error := ''Member name cannot be empty.''\<rparr> \<and>
   list_ex (\<lambda>m. asciiLower (name m) = asciiLower (trim (memberNameInput (addInput ''bOB''))))
     (members (addInput ''bOB'')) \<and>
   handleSaveMember codeUnitCompare asciiLower (addInput ''bOB'') =
     (addInput ''bOB'')\<lparr>error := ''A member with this name already exists.''\<rparr>"
proof -
  have m: "modalMode (addInput v) = Some Add" "memberNameInput (addInput v) = v"
    "members (addInput v) = [\<lparr>name = ''Alice''\<rparr>, \<lparr>name = ''Bob''\<rparr>]" for v
    by (simp_all add: addInput_def openAddEditModal_def bobIn_def)
  have t: "trim '' Carl  '' = ''Carl''" "trim ''   '' = []" "trim ''bOB'' = ''bOB''"
    "trim ''CARL'' = ''CARL''"
    by (simp_all add: trim_def isWhiteSpace_def)
  have l: "asciiLower ''Carl'' = ''carl''" "asciiLower ''CARL'' = ''carl''"
    "asciiLower ''bOB'' = ''bob''" "asciiLower ''Bob'' = ''bob''" "asciiLower ''Alice'' = ''alice''"
    by (simp_all add: asciiLower_def asciiLowerChar_def)
  show ?thesis
    using handleSaveMember_add [of "addInput '' Carl  ''" codeUnitCompare asciiLower]
      handleSaveMember_add [of "addInput ''   ''" codeUnitCompare asciiLower]
      handleSaveMember_add [of "addInput ''bOB''" codeUnitCompare asciiLower]
      consistent_codeUnitCompare
    by (simp add: m t l byName_def)
qed

section \<open>Renaming a member\<close>

lemma handleSaveMember_edit_ok:
  "trim (memberNameInput st) \<noteq> [] \<Longrightarrow> \<not> isDuplicate lower st (trim (memberNameInput st)) \<Longrightarrow>
   modalMode st = Some Edit \<Longrightarrow> memberToEdit st = Some m \<Longrightarrow>
     handleSaveMember cmp lower st =
       closeAddEditModal
         (st\<lparr>members :=
               sortBy (byName cmp)
                 (map (renameTo (name m) (trim (memberNameInput st))) (members st)),
             activeSessions :=
               sortBy (byName cmp)
                 (map (renameTo (name m) (trim (memberNameInput st))) (activeSessions st)),
             attendanceLog :=
               map (renameTo (name m) (trim (memberNameInput st))) (attendanceLog st)\<rparr>)"
  by (simp add: handleSaveMember_def Let_def)

lemma isDuplicate_edit:
  "modalMode st = Some Edit \<Longrightarrow> memberToEdit st = Some m \<Longrightarrow>
     isDuplicate lower st t =
       list_ex (\<lambda>m'. lower (name m') = lower t \<and> name m' \<noteq> name m) (members st)"
  by (simp add: isDuplicate_def)

lemma sessionLog_mset:
  "mset (sessionLog st) = mset (allActiveSessions st) + mset (allPastSessions st)"
  by (simp add: sessionLog_def mset_sortBy)

lemma activeRow_rename:
  "\<lparr>name = name (renameTo old new s), signInTime = signInTime (renameTo old new s),
    rowSignOutTime = None, status = SignedIn\<rparr> =
   renameTo old new
     \<lparr>name = name s, signInTime = signInTime s, rowSignOutTime = None, status = SignedIn\<rparr>"
  by (simp add: renameTo_def)

lemma pastRow_rename:
  "\<lparr>name = name (renameTo old new l), signInTime = signInTime (renameTo old new l),
    rowSignOutTime = Some (signOutTime (renameTo old new l)), status = SignedOut\<rparr> =
   renameTo old new
     \<lparr>name = name l, signInTime = signInTime l, rowSignOutTime = Some (signOutTime l),
      status = SignedOut\<rparr>"
  by (simp add: renameTo_def)

lemma allActiveSessions_rename:
  assumes "activeSessions st' = sortBy cmp' (map (renameTo old new) (activeSessions st))"
  shows "mset (allActiveSessions st') =
           image_mset (renameTo old new) (mset (allActiveSessions st))"
proof -
  have "mset (allActiveSessions st') =
          image_mset (\<lambda>s. \<lparr>name = name s, signInTime = signInTime s, rowSignOutTime = None,
                            status = SignedIn\<rparr>)
            (image_mset (renameTo old new) (mset (activeSessions st)))"
    by (simp add: allActiveSessions_def assms mset_sortBy)
  also have "\<dots> = image_mset (renameTo old new) (mset (allActiveSessions st))"
    by (simp add: allActiveSessions_def image_mset.compositionality comp_def activeRow_rename)
  finally show ?thesis .
qed

lemma allPastSessions_rename:
  "attendanceLog st' = map (renameTo old new) (attendanceLog st) \<Longrightarrow>
     allPastSessions st' = map (renameTo old new) (allPastSessions st)"
  by (simp add: allPastSessions_def comp_def pastRow_rename)

lemma renameTo_gone: "old \<noteq> new \<Longrightarrow> name (renameTo old new x) \<noteq> old"
  by (simp add: renameTo_def)

lemma insertBy_map:
  "(\<And>a b. cmp (f a) (f b) = cmp a b) \<Longrightarrow>
     map f (insertBy cmp x xs) = insertBy cmp (f x) (map f xs)"
  by (induction xs) simp_all

lemma sortBy_map:
  "(\<And>a b. cmp (f a) (f b) = cmp a b) \<Longrightarrow> map f (sortBy cmp xs) = sortBy cmp (map f xs)"
  by (induction xs) (simp_all add: insertBy_map)

lemma sortBy_append: "sortBy cmp (xs @ ys) = foldr (insertBy cmp) xs (sortBy cmp ys)"
  by (induction xs) simp_all

lemma consistent_sign: "consistent cmp \<Longrightarrow> (cmp a b < 0) = (0 < cmp b a)"
  unfolding consistent_def by blast

lemma consistent_cases:
  assumes c: "consistent cmp" and ne: "cmp a b \<noteq> 0"
  shows "(cmp a b \<le> 0 \<and> \<not> cmp b a \<le> 0) \<or> (cmp b a \<le> 0 \<and> \<not> cmp a b \<le> 0)"
  using consistent_sign [OF c, of a b] consistent_sign [OF c, of b a] ne by linarith

lemma insertBy_commute_lt:
  assumes c: "consistent cmp" and ab: "cmp a b \<le> 0" and ba: "\<not> cmp b a \<le> 0"
  shows "insertBy cmp a (insertBy cmp b zs) = insertBy cmp b (insertBy cmp a zs)"
proof (induction zs)
  case Nil
  show ?case using ab ba by simp
next
  case (Cons z zs)
  show ?case
  proof (cases "cmp b z \<le> 0")
    case True
    then have "cmp a z \<le> 0" using consistent_trans [OF c ab] by simp
    with True ab ba show ?thesis by simp
  next
    case False
    then show ?thesis using ab ba Cons.IH by (cases "cmp a z \<le> 0") simp_all
  qed
qed

lemma insertBy_commute:
  assumes c: "consistent cmp" and ab: "a = b \<or> cmp a b \<noteq> 0"
  shows "insertBy cmp a (insertBy cmp b zs) = insertBy cmp b (insertBy cmp a zs)"
proof (cases "a = b")
  case True
  then show ?thesis by simp
next
  case False
  then have "cmp a b \<noteq> 0" using ab by simp
  then consider "cmp a b \<le> 0 \<and> \<not> cmp b a \<le> 0" | "cmp b a \<le> 0 \<and> \<not> cmp a b \<le> 0"
    using consistent_cases [OF c] by blast
  then show ?thesis
  proof cases
    case 1
    then show ?thesis using insertBy_commute_lt [OF c, of a b zs] by simp
  next
    case 2
    then show ?thesis using insertBy_commute_lt [OF c, of b a zs] by simp
  qed
qed

lemma foldr_insertBy_perm:
  assumes c: "consistent cmp" and m: "mset xs = mset ys"
    and anti: "\<And>a b. a \<in> set xs \<Longrightarrow> b \<in> set xs \<Longrightarrow> cmp a b = 0 \<Longrightarrow> a = b"
  shows "foldr (insertBy cmp) xs zs = foldr (insertBy cmp) ys zs"
proof -
  have "fold (insertBy cmp) (rev xs) = fold (insertBy cmp) (rev ys)"
  proof (rule fold_multiset_equiv)
    fix x y
    assume "x \<in> set (rev xs)" "y \<in> set (rev xs)"
    then have "x = y \<or> cmp x y \<noteq> 0" using anti by auto
    then show "insertBy cmp x \<circ> insertBy cmp y = insertBy cmp y \<circ> insertBy cmp x"
      using insertBy_commute [OF c, of x y] by (simp add: fun_eq_iff)
  next
    show "mset (rev xs) = mset (rev ys)" using m by simp
  qed
  then show ?thesis by (simp add: foldr_conv_fold)
qed

lemma blank_renameTo: "(renameTo old new r)\<lparr>name := []\<rparr> = r\<lparr>name := []\<rparr>"
  by (simp add: renameTo_def)

lemma sessionCompare_blank:
  "sessionCompare (a\<lparr>name := []\<rparr>) (b\<lparr>name := []\<rparr>) = sessionCompare a b"
  by (simp add: sessionCompare_def)

lemma sessionLog_blank:
  "map (\<lambda>r. r\<lparr>name := []\<rparr>) (sessionLog st) =
     foldr (insertBy sessionCompare) (map (\<lambda>r. r\<lparr>name := []\<rparr>) (allActiveSessions st))
       (sortBy sessionCompare (map (\<lambda>r. r\<lparr>name := []\<rparr>) (allPastSessions st)))"
proof -
  have "map (\<lambda>r. r\<lparr>name := []\<rparr>) (sessionLog st) =
          sortBy sessionCompare
            (map (\<lambda>r. r\<lparr>name := []\<rparr>) (allActiveSessions st @ allPastSessions st))"
    unfolding sessionLog_def by (rule sortBy_map) (rule sessionCompare_blank)
  then show ?thesis by (simp add: sortBy_append)
qed

lemma allActiveSessions_blank_anti:
  assumes "a \<in> set (map (\<lambda>r. r\<lparr>name := []\<rparr>) (allActiveSessions st))"
    and "b \<in> set (map (\<lambda>r. r\<lparr>name := []\<rparr>) (allActiveSessions st))"
    and "sessionCompare a b = 0"
  shows "a = b"
  using assms by (auto simp: allActiveSessions_def sessionCompare_def)

lemma sessionLog_rename_fields:
  assumes act: "activeSessions st' = sortBy cmp' (map (renameTo old new) (activeSessions st))"
    and log: "attendanceLog st' = map (renameTo old new) (attendanceLog st)"
  shows "map (\<lambda>r. r\<lparr>name := []\<rparr>) (sessionLog st') = map (\<lambda>r. r\<lparr>name := []\<rparr>) (sessionLog st)"
proof -
  have p: "map (\<lambda>r. r\<lparr>name := []\<rparr>) (allPastSessions st') =
           map (\<lambda>r. r\<lparr>name := []\<rparr>) (allPastSessions st)"
    by (simp add: allPastSessions_rename [OF log] comp_def blank_renameTo)
  have m: "mset (map (\<lambda>r. r\<lparr>name := []\<rparr>) (allActiveSessions st')) =
           mset (map (\<lambda>r. r\<lparr>name := []\<rparr>) (allActiveSessions st))"
    by (simp add: allActiveSessions_rename [OF act] image_mset.compositionality comp_def
        blank_renameTo)
  show ?thesis
    unfolding sessionLog_blank p
    by (rule foldr_insertBy_perm [OF consistent_sessionCompare m])
       (rule allActiveSessions_blank_anti)
qed

text \<open>
  C6. In edit mode, for a non-empty trimmed input whose lower-case form no other member
  shares, \<^verbatim>\<open>handleSaveMember\<close> gives the new name to every member, active session and
  log entry that carries the old name and changes no other entry; the roster and the active
  sessions are sorted by name, and the log keeps its order. The merged view afterwards has
  as many rows as before, its rows are the former rows renamed, and at every position only
  the name can differ from the row that stood there before.
\<close>

theorem handleSaveMember_rename:
  "modalMode st = Some Edit \<and> memberToEdit st = Some m \<and>
   trim (memberNameInput st) \<noteq> [] \<and>
   \<not> list_ex (\<lambda>m'. lower (name m') = lower (trim (memberNameInput st)) \<and> name m' \<noteq> name m)
        (members st) \<longrightarrow>
   members (handleSaveMember cmp lower st) =
     sortBy (byName cmp) (map (renameTo (name m) (trim (memberNameInput st))) (members st)) \<and>
   activeSessions (handleSaveMember cmp lower st) =
     sortBy (byName cmp)
       (map (renameTo (name m) (trim (memberNameInput st))) (activeSessions st)) \<and>
   attendanceLog (handleSaveMember cmp lower st) =
     map (renameTo (name m) (trim (memberNameInput st))) (attendanceLog st) \<and>
   (consistent cmp \<longrightarrow>
      sortedBy (byName cmp) (members (handleSaveMember cmp lower st)) \<and>
      sortedBy (byName cmp) (activeSessions (handleSaveMember cmp lower st))) \<and>
   (name m \<noteq> trim (memberNameInput st) \<longrightarrow>
      \<not> list_ex (\<lambda>x. name x = name m) (members (handleSaveMember cmp lower st)) \<and>
      \<not> list_ex (\<lambda>x. name x = name m) (activeSessions (handleSaveMember cmp lower st)) \<and>
      \<not> list_ex (\<lambda>x. name x = name m) (attendanceLog (handleSaveMember cmp lower st))) \<and>
   length (sessionLog (handleSaveMember cmp lower st)) = length (sessionLog st) \<and>
   mset (sessionLog (handleSaveMember cmp lower st)) =
     image_mset (renameTo (name m) (trim (memberNameInput st))) (mset (sessionLog st)) \<and>
   map (\<lambda>r. r\<lparr>name := []\<rparr>) (sessionLog (handleSaveMember cmp lower st)) =
     map (\<lambda>r. r\<lparr>name := []\<rparr>) (sessionLog st)"
proof (intro impI)
  assume h: "modalMode st = Some Edit \<and> memberToEdit st = Some m \<and>
   trim (memberNameInput st) \<noteq> [] \<and>
   \<not> list_ex (\<lambda>m'. lower (name m') = lower (trim (memberNameInput st)) \<and> name m' \<noteq> name m)
        (members st)"
  define new where "new = trim (memberNameInput st)"
  define st' where "st' = handleSaveMember cmp lower st"
  have eq: "st' = closeAddEditModal
         (st\<lparr>members := sortBy (byName cmp) (map (renameTo (name m) new) (members st)),
             activeSessions :=
               sortBy (byName cmp) (map (renameTo (name m) new) (activeSessions st)),
             attendanceLog := map (renameTo (name m) new) (attendanceLog st)\<rparr>)"
    unfolding st'_def new_def using h
    by (intro handleSaveMember_edit_ok) (simp_all add: isDuplicate_edit)
  have mem: "members st' = sortBy (byName cmp) (map (renameTo (name m) new) (members st))"
    and act: "activeSessions st' =
                sortBy (byName cmp) (map (renameTo (name m) new) (activeSessions st))"
    and log: "attendanceLog st' = map (renameTo (name m) new) (attendanceLog st)"
    by (simp_all add: eq closeAddEditModal_def)
  have srt: "sortedBy (byName cmp) (members st') \<and> sortedBy (byName cmp) (activeSessions st')"
    if "consistent cmp"
    using that by (simp add: mem act sortedBy_sortBy consistent_byName)
  have gone: "\<not> list_ex (\<lambda>x. name x = name m) (members st') \<and>
      \<not> list_ex (\<lambda>x. name x = name m) (activeSessions st') \<and>
      \<not> list_ex (\<lambda>x. name x = name m) (attendanceLog st')"
    if "name m \<noteq> new"
    using that by (simp add: mem act log list_ex_iff set_sortBy renameTo_gone)
  have ms: "mset (sessionLog st') = image_mset (renameTo (name m) new) (mset (sessionLog st))"
    by (simp add: sessionLog_mset allActiveSessions_rename [OF act]
        allPastSessions_rename [OF log])
  have pos: "map (\<lambda>r. r\<lparr>name := []\<rparr>) (sessionLog st') =
             map (\<lambda>r. r\<lparr>name := []\<rparr>) (sessionLog st)"
    by (rule sessionLog_rename_fields [OF act log])
  have len: "length (sessionLog st') = length (sessionLog st)"
    using ms by (metis size_mset size_image_mset)
  show "members (handleSaveMember cmp lower st) =
     sortBy (byName cmp) (map (renameTo (name m) (trim (memberNameInput st))) (members st)) \<and>
   activeSessions (handleSaveMember cmp lower st) =
     sortBy (byName cmp)
       (map (renameTo (name m) (trim (memberNameInput st))) (activeSessions st)) \<and>
   attendanceLog (handleSaveMember cmp lower st) =
     map (renameTo (name m) (trim (memberNameInput st))) (attendanceLog st) \<and>
   (consistent cmp \<longrightarrow>
      sortedBy (byName cmp) (members (handleSaveMember cmp lower st)) \<and>
      sortedBy (byName cmp) (activeSessions (handleSaveMember cmp lower st))) \<and>
   (name m \<noteq> trim (memberNameInput st) \<longrightarrow>
      \<not> list_ex (\<lambda>x. name x = name m) (members (handleSaveMember cmp lower st)) \<and>
      \<not> list_ex (\<lambda>x. name x = name m) (activeSessions (handleSaveMember cmp lower st)) \<and>
      \<not> list_ex (\<lambda>x. name x = name m) (attendanceLog (handleSaveMember cmp lower st))) \<and>
   length (sessionLog (handleSaveMember cmp lower st)) = length (sessionLog st) \<and>
   mset (sessionLog (handleSaveMember cmp lower st)) =
     image_mset (renameTo (name m) (trim (memberNameInput st))) (mset (sessionLog st)) \<and>
   map (\<lambda>r. r\<lparr>name := []\<rparr>) (sessionLog (handleSaveMember cmp lower st)) =
     map (\<lambda>r. r\<lparr>name := []\<rparr>) (sessionLog st)"
    using mem act log srt gone ms len pos unfolding st'_def new_def by blast
qed


theorem handleSaveMember_rename_witness:
  "modalMode renameBob = Some Edit \<and> memberToEdit renameBob = Some \<lparr>name = ''Bob''\<rparr> \<and>
   trim (memberNameInput renameBob) = ''Zed'' \<and>
   \<not> list_ex (\<lambda>m'. asciiLower (name m') = asciiLower ''Zed'' \<and> name m' \<noteq> ''Bob'')
        (members renameBob) \<and>
   consistent codeUnitCompare \<and>
   members (handleSaveMember codeUnitCompare asciiLower renameBob) =
     [\<lparr>name = ''Alice''\<rparr>, \<lparr>name = ''Zed''\<rparr>] \<and>
   activeSessions (handleSaveMember codeUnitCompare asciiLower renameBob) =
     [\<lparr>name = ''Zed'', signInTime = 100\<rparr>] \<and>
   attendanceLog (handleSaveMember codeUnitCompare asciiLower renameBob) =
     [\<lparr>name = ''Zed'', signInTime = 10, signOutTime = 20\<rparr>,
      \<lparr>name = ''Alice'', signInTime = 5, signOutTime = 8\<rparr>] \<and>
   sessionLog renameBob =
     [\<lparr>name = ''Bob'', signInTime = 100, rowSignOutTime = None, status = SignedIn\<rparr>,
      \<lparr>name = ''Bob'', signInTime = 10, rowSignOutTime = Some 20, status = SignedOut\<rparr>,
      \<lparr>name = ''Alice'', signInTime = 5, rowSignOutTime = Some 8, status = SignedOut\<rparr>] \<and>
   sessionLog (handleSaveMember codeUnitCompare asciiLower renameBob) =
     [\<lparr>name = ''Zed'', signInTime = 100, rowSignOutTime = None, status = SignedIn\<rparr>,
      \<lparr>name = ''Zed'', signInTime = 10, rowSignOutTime = Some 20, status = SignedOut\<rparr>,
      \<lparr>name = ''Alice'', signInTime = 5, rowSignOutTime = Some 8, status = SignedOut\<rparr>]"
proof -
  have s: "modalMode renameBob = Some Edit" "memberToEdit renameBob = Some \<lparr>name = ''Bob''\<rparr>"
    "memberNameInput renameBob = '' Zed ''"
    "members renameBob = [\<lparr>name = ''Alice''\<rparr>, \<lparr>name = ''Bob''\<rparr>]"
    "activeSessions renameBob = [\<lparr>name = ''Bob'', signInTime = 100\<rparr>]"
    "attendanceLog renameBob =
       [\<lparr>name = ''Bob'', signInTime = 10, signOutTime = 20\<rparr>,
        \<lparr>name = ''Alice'', signInTime = 5, signOutTime = 8\<rparr>]"
    by (simp_all add: renameBob_def openAddEditModal_def bobIn_def)
  have t: "trim '' Zed '' = ''Zed''"
    by (simp add: trim_def isWhiteSpace_def)
  have l: "asciiLower ''Zed'' = ''zed''" "asciiLower ''Bob'' = ''bob''"
    "asciiLower ''Alice'' = ''alice''"
    by (simp_all add: asciiLower_def asciiLowerChar_def)
  show ?thesis
    using handleSaveMember_rename [of renameBob "\<lparr>name = ''Bob''\<rparr>" asciiLower codeUnitCompare]
      consistent_codeUnitCompare
    by (simp add: s t l byName_def renameTo_def sessionLog_def allActiveSessions_def
        allPastSessions_def sessionCompare_def)
qed

section \<open>The roster stays sorted\<close>

lemma sortedBy_predefined:
  "consistent cmp \<Longrightarrow> sortedBy (byName cmp) (members (initialState cmp))"
  by (simp add: initialState_def sortedPredefinedMembers_def sortedBy_sortBy consistent_byName)

lemma members_runConfirm:
  "sortedBy (byName cmp) (members st) \<Longrightarrow> sortedBy (byName cmp) (members (runConfirm a st))"
  by (cases a)
     (simp_all add: deleteAction_def closeAddEditModal_def startNewTaskFlow_def
        clearLogAction_def sortedBy_filter)

lemma members_handleSaveMember:
  "consistent cmp \<Longrightarrow> sortedBy (byName cmp) (members st) \<Longrightarrow>
     sortedBy (byName cmp) (members (handleSaveMember cmp lower st))"
  by (simp add: handleSaveMember_def Let_def closeAddEditModal_def sortedBy_sortBy
      consistent_byName)

lemma members_step:
  assumes c: "consistent cmp" and s: "sortedBy (byName cmp) (members st)"
  shows "sortedBy (byName cmp) (members (step cmp lower ev st))"
proof (cases ev)
  case HandleSaveMember
  then show ?thesis using members_handleSaveMember [OF c s] by simp
next
  case HandleConfirm
  then show ?thesis using members_runConfirm [OF s]
    by (simp add: handleConfirm_def closeConfirmModal_def)
next
  case HandleSaveMemberList
  then show ?thesis using c
    by (simp add: handleSaveMemberList_def closeListEditModal_def sortedBy_sortBy
        consistent_byName)
next
  case (OpenAddEditModal mode mem)
  then show ?thesis using s
    by (cases mode; cases mem) (simp_all add: openAddEditModal_def)
next
  case (HandleSignOut n now)
  then show ?thesis using s
    by (simp add: handleSignOut_def Let_def split: option.splits)
next
  case HandleDeleteMember
  then show ?thesis using s
    by (simp add: handleDeleteMember_def openConfirmModal_def split: option.splits)
qed (use s in \<open>simp_all add: openSignInModal_def closeSignInModal_def handleSignIn_def Let_def
      closeAddEditModal_def closeConfirmModal_def openListEditModal_def
      handleRemoveMemberFromEditList_def closeListEditModal_def openNewTaskModal_def
      openConfirmModal_def startNewTaskFlow_def closeNewTaskModal_def handleStartNewTask_def
      handleClearLog_def\<close>)

lemma members_run:
  "consistent cmp \<Longrightarrow> sortedBy (byName cmp) (members st) \<Longrightarrow>
     sortedBy (byName cmp) (members (run cmp lower evs st))"
  by (induction evs arbitrary: st) (simp_all add: members_step)

text \<open>
  C10. For a consistent comparator the initial roster is in the order of the comparator,
  every handler keeps a sorted roster sorted (add, rename and replace sort it again,
  delete filters it), and so the roster is sorted in every state reached from the
  initial one.
\<close>

theorem members_sorted_reachable:
  "consistent cmp \<longrightarrow>
     sortedBy (byName cmp) (members (initialState cmp)) \<and>
     (\<forall>ev st. sortedBy (byName cmp) (members st) \<longrightarrow>
        sortedBy (byName cmp) (members (step cmp lower ev st))) \<and>
     (\<forall>evs. sortedBy (byName cmp) (members (run cmp lower evs (initialState cmp))))"
  using sortedBy_predefined [of cmp] members_step [of cmp _ lower] members_run [of cmp _ lower]
  by blast

theorem members_sorted_reachable_witness:
  "consistent codeUnitCompare \<and>
   map name (members (initialState codeUnitCompare)) = PREDEFINED_MEMBERS \<and>
   sortedBy (byName codeUnitCompare) (members (initialState codeUnitCompare)) \<and>
   sortedBy (byName codeUnitCompare)
     (members (run codeUnitCompare asciiLower
         [OpenAddEditModal Add None, SetMemberNameInput ''Aaron Zed'', HandleSaveMember]
         (initialState codeUnitCompare)))"
proof -
  have i: "map name (members (initialState codeUnitCompare)) = PREDEFINED_MEMBERS"
    by (simp add: initialState_def sortedPredefinedMembers_def PREDEFINED_MEMBERS_def byName_def)
  have r: "sortedBy (byName codeUnitCompare) (members (initialState codeUnitCompare)) \<and>
     sortedBy (byName codeUnitCompare)
       (members (run codeUnitCompare asciiLower
          [OpenAddEditModal Add None, SetMemberNameInput ''Aaron Zed'', HandleSaveMember]
          (initialState codeUnitCompare)))"
    using members_sorted_reachable [of codeUnitCompare asciiLower] consistent_codeUnitCompare
    by blast
  show ?thesis
    using r consistent_codeUnitCompare i by blast
qed

section \<open>Sign-in and sign-out times of log entries\<close>

lemma signInTime_renameTo: "signInTime (renameTo old new x) = signInTime x"
  by (simp add: renameTo_def)

lemma signOutTime_renameTo: "signOutTime (renameTo old new x) = signOutTime x"
  by (simp add: renameTo_def)

lemma clockInv_mono: "clockInv t st \<Longrightarrow> t \<le> t' \<Longrightarrow> clockInv t' st"
  by (auto simp: clockInv_def list_all_iff)

lemma clockInv_handleSignIn: "clockInv t st \<Longrightarrow> t \<le> now \<Longrightarrow> clockInv now (handleSignIn cmp now st)"
  by (auto simp: clockInv_def list_all_iff handleSignIn_def Let_def closeSignInModal_def
      set_sortBy)

lemma clockInv_handleSignOut:
  "clockInv t st \<Longrightarrow> t \<le> now \<Longrightarrow> clockInv now (handleSignOut n now st)"
  by (auto simp: clockInv_def list_all_iff handleSignOut_def Let_def
      split: option.splits dest!: find_name_Some)

lemma clockInv_handleSaveMember: "clockInv t st \<Longrightarrow> clockInv t (handleSaveMember cmp lower st)"
  by (auto simp: clockInv_def list_all_iff handleSaveMember_def Let_def closeAddEditModal_def
      set_sortBy signInTime_renameTo signOutTime_renameTo)

lemma clockInv_runConfirm: "clockInv t st \<Longrightarrow> clockInv t (runConfirm a st)"
  by (cases a)
     (auto simp: clockInv_def list_all_iff deleteAction_def closeAddEditModal_def
        startNewTaskFlow_def clearLogAction_def)

lemma clockInv_step_other:
  assumes "clockInv t st" and "\<And>now. ev \<noteq> HandleSignIn now" and "\<And>n now. ev \<noteq> HandleSignOut n now"
  shows "clockInv t (step cmp lower ev st)"
proof (cases ev)
  case HandleSaveMember
  then show ?thesis using assms(1) by (simp add: clockInv_handleSaveMember)
next
  case HandleConfirm
  then show ?thesis using clockInv_runConfirm [OF assms(1), of "confirmOnConfirm st"]
    by (simp add: handleConfirm_def closeConfirmModal_def clockInv_def)
next
  case (OpenAddEditModal mode mem)
  then show ?thesis using assms(1)
    by (cases mode; cases mem) (simp_all add: openAddEditModal_def clockInv_def)
next
  case HandleDeleteMember
  then show ?thesis using assms(1)
    by (simp add: handleDeleteMember_def openConfirmModal_def clockInv_def split: option.splits)
next
  case (HandleSignIn now)
  then show ?thesis using assms(2) [of now] by simp
next
  case (HandleSignOut n now)
  then show ?thesis using assms(3) [of n now] by simp
qed (use assms(1) in \<open>simp_all add: clockInv_def openSignInModal_def closeSignInModal_def
      closeAddEditModal_def closeConfirmModal_def openListEditModal_def
      handleRemoveMemberFromEditList_def closeListEditModal_def handleSaveMemberList_def
      openNewTaskModal_def openConfirmModal_def startNewTaskFlow_def closeNewTaskModal_def
      handleStartNewTask_def handleClearLog_def Let_def\<close>)

lemma clockReadings_other:
  "(\<And>now. ev \<noteq> HandleSignIn now) \<Longrightarrow> (\<And>n now. ev \<noteq> HandleSignOut n now) \<Longrightarrow>
     clockReadings (ev # evs) = clockReadings evs"
  by (cases ev) auto

lemma clockInv_run:
  "clockInv t st \<Longrightarrow> sorted (clockReadings evs) \<Longrightarrow> \<forall>r \<in> set (clockReadings evs). t \<le> r \<Longrightarrow>
     \<exists>t'. clockInv t' (run cmp lower evs st)"
proof (induction evs arbitrary: t st)
  case Nil
  then show ?case by auto
next
  case (Cons ev evs)
  consider (signIn) now where "ev = HandleSignIn now"
    | (signOut) n now where "ev = HandleSignOut n now"
    | (other) "\<And>now. ev \<noteq> HandleSignIn now" "\<And>n now. ev \<noteq> HandleSignOut n now"
    by blast
  then show ?case
  proof cases
    case signIn
    with Cons.prems have "clockInv now (step cmp lower ev st)"
      by (simp add: clockInv_handleSignIn)
    moreover have "sorted (clockReadings evs)" "\<forall>r \<in> set (clockReadings evs). now \<le> r"
      using Cons.prems signIn by simp_all
    ultimately show ?thesis using Cons.IH by simp
  next
    case signOut
    with Cons.prems have "clockInv now (step cmp lower ev st)"
      by (simp add: clockInv_handleSignOut)
    moreover have "sorted (clockReadings evs)" "\<forall>r \<in> set (clockReadings evs). now \<le> r"
      using Cons.prems signOut by simp_all
    ultimately show ?thesis using Cons.IH by simp
  next
    case other
    then have "clockInv t (step cmp lower ev st)"
      using Cons.prems(1) by (intro clockInv_step_other)
    moreover have "sorted (clockReadings evs)" "\<forall>r \<in> set (clockReadings evs). t \<le> r"
      using Cons.prems other by (simp_all add: clockReadings_other)
    ultimately show ?thesis using Cons.IH by simp
  qed
qed

lemma clockInv_initial: "clockInv t (initialState cmp)"
  by (simp add: clockInv_def initialState_def)

text \<open>
  C3, amended. When the clock readings taken along a sequence of handler calls never
  decrease, every log entry of the state reached from the initial state has a sign-out time
  that is not earlier than its sign-in time.
\<close>

theorem log_entries_not_reversed:
  "sorted (clockReadings evs) \<longrightarrow>
     (\<forall>e \<in> set (attendanceLog (run cmp lower evs (initialState cmp))).
        signInTime e \<le> signOutTime e)"
proof
  assume s: "sorted (clockReadings evs)"
  show "\<forall>e \<in> set (attendanceLog (run cmp lower evs (initialState cmp))).
        signInTime e \<le> signOutTime e"
  proof (cases "clockReadings evs")
    case Nil
    then obtain t' where "clockInv t' (run cmp lower evs (initialState cmp))"
      using clockInv_run [OF clockInv_initial [of 0 cmp] s, of cmp lower] by auto
    then show ?thesis by (simp add: clockInv_def list_all_iff)
  next
    case (Cons r rs)
    then have "\<forall>x \<in> set (clockReadings evs). r \<le> x" using s by auto
    then obtain t' where "clockInv t' (run cmp lower evs (initialState cmp))"
      using clockInv_run [OF clockInv_initial [of r cmp] s, of cmp lower] by auto
    then show ?thesis by (simp add: clockInv_def list_all_iff)
  qed
qed

text \<open>
  C3, as stated, fails: a sign-in and a sign-out that read the same millisecond leave a log
  entry whose sign-out time equals its sign-in time, so it is not strictly later.
\<close>

theorem log_entry_same_instant_counterexample:
  "attendanceLog (run codeUnitCompare asciiLower
      [OpenSignInModal, HandleSignIn 1000, HandleSignOut ''Andres Dean'' 1000]
      (initialState codeUnitCompare)) =
     [\<lparr>name = ''Andres Dean'', signInTime = 1000, signOutTime = 1000\<rparr>] \<and>
   \<not> signInTime \<lparr>name = ''Andres Dean'', signInTime = 1000, signOutTime = 1000\<rparr> <
      signOutTime \<lparr>name = ''Andres Dean'', signInTime = 1000, signOutTime = 1000\<rparr>"
proof -
  have o: "signInMemberName (openSignInModal (initialState codeUnitCompare)) = ''Andres Dean''"
    by (simp add: openSignInModal_def availableMembersForSignIn_def initialState_def
        sortedPredefinedMembers_def PREDEFINED_MEMBERS_def byName_def)
  have a: "activeSessions (openSignInModal (initialState codeUnitCompare)) = []"
    "attendanceLog (openSignInModal (initialState codeUnitCompare)) = []"
    by (simp_all add: openSignInModal_def initialState_def)
  show ?thesis
    by (simp add: handleSignIn_def handleSignOut_def closeSignInModal_def o a)
qed

theorem log_entries_not_reversed_witness:
  "sorted (clockReadings [OpenSignInModal, HandleSignIn 1000, HandleSignOut ''Andres Dean'' 1500]) \<and>
   attendanceLog (run codeUnitCompare asciiLower
      [OpenSignInModal, HandleSignIn 1000, HandleSignOut ''Andres Dean'' 1500]
      (initialState codeUnitCompare)) =
     [\<lparr>name = ''Andres Dean'', signInTime = 1000, signOutTime = 1500\<rparr>] \<and>
   signInTime (hd (attendanceLog (run codeUnitCompare asciiLower
      [OpenSignInModal, HandleSignIn 1000, HandleSignOut ''Andres Dean'' 1500]
      (initialState codeUnitCompare)))) \<le>
   signOutTime (hd (attendanceLog (run codeUnitCompare asciiLower
      [OpenSignInModal, HandleSignIn 1000, HandleSignOut ''Andres Dean'' 1500]
      (initialState codeUnitCompare))))"
proof -
  have o: "signInMemberName (openSignInModal (initialState codeUnitCompare)) = ''Andres Dean''"
    by (simp add: openSignInModal_def availableMembersForSignIn_def initialState_def
        sortedPredefinedMembers_def PREDEFINED_MEMBERS_def byName_def)
  have a: "activeSessions (openSignInModal (initialState codeUnitCompare)) = []"
    "attendanceLog (openSignInModal (initialState codeUnitCompare)) = []"
    by (simp_all add: openSignInModal_def initialState_def)
  have s: "sorted (clockReadings [OpenSignInModal, HandleSignIn 1000, HandleSignOut ''Andres Dean'' 1500])"
    by simp
  have l: "attendanceLog (run codeUnitCompare asciiLower
      [OpenSignInModal, HandleSignIn 1000, HandleSignOut ''Andres Dean'' 1500]
      (initialState codeUnitCompare)) =
     [\<lparr>name = ''Andres Dean'', signInTime = 1000, signOutTime = 1500\<rparr>]"
    by (simp add: handleSignIn_def handleSignOut_def closeSignInModal_def o a)
  show ?thesis
    using log_entries_not_reversed
      [of "[OpenSignInModal, HandleSignIn 1000, HandleSignOut ''Andres Dean'' 1500]"
         codeUnitCompare asciiLower] s l
    by auto
qed

section \<open>Export\<close>

lemma length_padEnd: "length (padEnd s n) = max (length s) n"
  by (simp add: padEnd_def)

lemma foldr_max_Max:
  "foldr max (map f rows) k = Max (insert k (f ` set rows))" for f :: "'a \<Rightarrow> nat"
proof (induction rows)
  case Nil
  show ?case by simp
next
  case (Cons a rows)
  have "insert k (f ` set (a # rows)) = insert (f a) (insert k (f ` set rows))"
    by auto
  then show ?case using Cons by simp
qed

lemma maxNameLength_Max:
  "maxNameLength rows = Max (insert (length ''Member'') ((\<lambda>r. length (name r)) ` set rows))"
  unfolding maxNameLength_def by (rule foldr_max_Max)

lemma maxNameLength_ge: "r \<in> set rows \<Longrightarrow> length (name r) \<le> maxNameLength rows"
  unfolding maxNameLength_Max by (intro Max_ge) auto

lemma sessionLog_empty: "(sessionLog st = []) = (activeSessions st = [] \<and> attendanceLog st = [])"
proof -
  have "(sessionLog st = []) = (length (sessionLog st) = 0)" by simp
  also have "\<dots> = (activeSessions st = [] \<and> attendanceLog st = [])"
    by (simp add: sessionLog_def length_sortBy allActiveSessions_def allPastSessions_def)
  finally show ?thesis .
qed

lemma sessionLog_status:
  "r \<in> set (sessionLog st) \<Longrightarrow> (rowSignOutTime r = None) = (status r = SignedIn)"
  by (auto simp: sessionLog_def set_sortBy allActiveSessions_def allPastSessions_def)

lemma exportTable_not_message: "exportTable toLocale rows \<noteq> nl @ noRecordsMessage @ nl"
  by (simp add: exportTable_def Let_def padEnd_def nl_def)

lemma exportRow_name: "\<exists>ss. exportRow toLocale w r = name r @ ss"
  by (simp add: exportRow_def padEnd_def)

lemma sublist_name_exportTable:
  assumes "r \<in> set rows"
  shows "sublist (name r) (exportTable toLocale rows)"
proof -
  define w where "w = maxNameLength rows"
  obtain hd where t: "exportTable toLocale rows = hd @ concat (map (exportRow toLocale w) rows)"
    unfolding exportTable_def w_def Let_def by (metis append.assoc)
  obtain xs ys where "rows = xs @ r # ys"
    using assms by (meson split_list)
  then have c: "concat (map (exportRow toLocale w) rows) =
      concat (map (exportRow toLocale w) xs) @ exportRow toLocale w r @
      concat (map (exportRow toLocale w) ys)"
    by simp
  obtain ss where "exportRow toLocale w r = name r @ ss"
    using exportRow_name by blast
  then have "exportTable toLocale rows =
      (hd @ concat (map (exportRow toLocale w) xs)) @ name r @
      (ss @ concat (map (exportRow toLocale w) ys))"
    by (simp add: t c)
  then show ?thesis unfolding sublist_def by blast
qed

lemma sublist_prepend: "sublist xs ys \<Longrightarrow> sublist xs (zs @ ys)"
proof -
  assume "sublist xs ys"
  then obtain ps ss where "ys = ps @ xs @ ss" unfolding sublist_def by blast
  then have "zs @ ys = (zs @ ps) @ xs @ ss" by simp
  then show ?thesis unfolding sublist_def by blast
qed

text \<open>
  C8, as stated, fails in its last part: with a member named like the message signed in, the
  merged view is not empty and the export still contains the text of the message, inside
  the row of that member.
\<close>

theorem exportContent_message_counterexample:
  "sessionLog messageAsName \<noteq> [] \<and>
   sublist noRecordsMessage (exportContent (\<lambda>t. []) [] messageAsName)"
proof -
  have s: "sessionLog messageAsName =
     [\<lparr>name = ''No attendance records found.'', signInTime = 0, rowSignOutTime = None,
       status = SignedIn\<rparr>]"
    by (simp add: messageAsName_def initialState_def sessionLog_def allActiveSessions_def
        allPastSessions_def)
  have "sublist (name \<lparr>name = ''No attendance records found.'', signInTime = 0,
                       rowSignOutTime = None, status = SignedIn\<rparr>)
          (exportTable (\<lambda>t. []) (sessionLog messageAsName))"
    by (rule sublist_name_exportTable) (simp add: s)
  then have "sublist noRecordsMessage (exportTable (\<lambda>t. []) (sessionLog messageAsName))"
    by (simp add: noRecordsMessage_def)
  then have "sublist noRecordsMessage (exportContent (\<lambda>t. []) [] messageAsName)"
    unfolding exportContent_def by (simp add: s sublist_prepend)
  then show ?thesis by (simp add: s)
qed

text \<open>
  C8, amended. The merged view is empty exactly when there is neither an active session nor
  a log entry. When it is empty the export contains the no-records message, and the export
  is the header block followed by just that message exactly when the view is empty.
  Otherwise the header block is followed by the column headers, the rule and one row for
  each entry of the merged view, in its order. The name column is as wide as the longest
  name in the view and at least as wide as "Member", and every name cell has exactly that
  width. A row without a sign-out time, which is a row of status "Signed In", ends its
  line with three dots where the other rows have the formatted sign-out time.
\<close>

theorem exportContent_layout:
  "(sessionLog st = []) = (activeSessions st = [] \<and> attendanceLog st = []) \<and>
   (sessionLog st = [] \<longrightarrow> sublist noRecordsMessage (exportContent toLocale generatedOn st)) \<and>
   (exportContent toLocale generatedOn st = exportHeader generatedOn st @ nl @ noRecordsMessage @ nl)
     = (sessionLog st = []) \<and>
   (sessionLog st \<noteq> [] \<longrightarrow>
      maxNameLength (sessionLog st) =
        Max (insert (length ''Member'') ((\<lambda>r. length (name r)) ` set (sessionLog st))) \<and>
      exportContent toLocale generatedOn st =
        exportHeader generatedOn st @
        padEnd ''Member'' (maxNameLength (sessionLog st)) @ '' | '' @ padEnd ''Status'' 12 @
          '' | '' @ padEnd ''Signed In'' 22 @ '' | '' @ ''Signed Out'' @ nl @
        repeat CHR ''-'' (maxNameLength (sessionLog st)) @ ''-+-'' @ repeat CHR ''-'' 12 @
          ''-+-'' @ repeat CHR ''-'' 22 @ ''-+-'' @ repeat CHR ''-'' 22 @ nl @
        concat (map (exportRow toLocale (maxNameLength (sessionLog st))) (sessionLog st)) \<and>
      length (padEnd ''Member'' (maxNameLength (sessionLog st))) = maxNameLength (sessionLog st) \<and>
      (\<forall>r \<in> set (sessionLog st).
         length (padEnd (name r) (maxNameLength (sessionLog st))) = maxNameLength (sessionLog st) \<and>
         (rowSignOutTime r = None) = (status r = SignedIn) \<and>
         exportRow toLocale (maxNameLength (sessionLog st)) r =
           padEnd (name r) (maxNameLength (sessionLog st)) @ '' | '' @
           padEnd (statusText (status r)) 12 @ '' | '' @
           padEnd (toLocale (signInTime r)) 22 @ '' | '' @
           (case rowSignOutTime r of None \<Rightarrow> ''...'' | Some t \<Rightarrow> toLocale t) @ nl))"
proof (intro conjI impI ballI)
  show "(sessionLog st = []) = (activeSessions st = [] \<and> attendanceLog st = [])"
    by (rule sessionLog_empty)
  show "sublist noRecordsMessage (exportContent toLocale generatedOn st)" if "sessionLog st = []"
    using that by (simp add: exportContent_def sublist_prepend)
  show "(exportContent toLocale generatedOn st =
          exportHeader generatedOn st @ nl @ noRecordsMessage @ nl) = (sessionLog st = [])"
    using exportTable_not_message [of toLocale "sessionLog st"]
    by (simp add: exportContent_def)
  show "maxNameLength (sessionLog st) =
        Max (insert (length ''Member'') ((\<lambda>r. length (name r)) ` set (sessionLog st)))"
    by (rule maxNameLength_Max)
  show "exportContent toLocale generatedOn st =
        exportHeader generatedOn st @
        padEnd ''Member'' (maxNameLength (sessionLog st)) @ '' | '' @ padEnd ''Status'' 12 @
          '' | '' @ padEnd ''Signed In'' 22 @ '' | '' @ ''Signed Out'' @ nl @
        repeat CHR ''-'' (maxNameLength (sessionLog st)) @ ''-+-'' @ repeat CHR ''-'' 12 @
          ''-+-'' @ repeat CHR ''-'' 22 @ ''-+-'' @ repeat CHR ''-'' 22 @ nl @
        concat (map (exportRow toLocale (maxNameLength (sessionLog st))) (sessionLog st))"
    if "sessionLog st \<noteq> []"
    using that by (simp add: exportContent_def exportTable_def Let_def)
  show "length (padEnd ''Member'' (maxNameLength (sessionLog st))) = maxNameLength (sessionLog st)"
    by (simp add: length_padEnd maxNameLength_Max)
next
  fix r
  assume r: "r \<in> set (sessionLog st)"
  show "length (padEnd (name r) (maxNameLength (sessionLog st))) = maxNameLength (sessionLog st)"
    using maxNameLength_ge [OF r] by (simp add: length_padEnd)
  show "(rowSignOutTime r = None) = (status r = SignedIn)"
    using r by (rule sessionLog_status)
  show "exportRow toLocale (maxNameLength (sessionLog st)) r =
           padEnd (name r) (maxNameLength (sessionLog st)) @ '' | '' @
           padEnd (statusText (status r)) 12 @ '' | '' @
           padEnd (toLocale (signInTime r)) 22 @ '' | '' @
           (case rowSignOutTime r of None \<Rightarrow> ''...'' | Some t \<Rightarrow> toLocale t) @ nl"
    by (simp add: exportRow_def split: option.splits)
qed

theorem exportContent_layout_witness:
  "sessionLog oneInOneOut \<noteq> [] \<and>
   maxNameLength (sessionLog oneInOneOut) = 6 \<and>
   exportContent sampleLocale ''1/1/2026, 10:05:00 AM'' oneInOneOut =
     ''Grand Forks Search and Rescue - Attendance Log'' @ nl @
     ''Generated on: 1/1/2026, 10:05:00 AM'' @ nl @
     ''=================================================================================='' @ nl @
     nl @
     ''Member | Status       | Signed In              | Signed Out'' @ nl @
     ''-------+--------------+------------------------+-----------------------'' @ nl @
     ''Bob    | Signed In    | Jan 1, 10:00 AM        | ...'' @ nl @
     ''Alice  | Signed Out   | Jan 1, 9:00 AM         | Jan 1, 9:30 AM'' @ nl \<and>
   sessionLog (initialState codeUnitCompare) = [] \<and>
   exportContent sampleLocale ''1/1/2026, 10:05:00 AM'' (initialState codeUnitCompare) =
     ''Grand Forks Search and Rescue - Attendance Log'' @ nl @
     ''Generated on: 1/1/2026, 10:05:00 AM'' @ nl @
     ''=================================================================================='' @ nl @
     nl @
     nl @
     ''No attendance records found.'' @ nl \<and>
   sublist noRecordsMessage
     (exportContent sampleLocale ''1/1/2026, 10:05:00 AM'' (initialState codeUnitCompare))"
proof -
  have s: "sessionLog oneInOneOut =
     [\<lparr>name = ''Bob'', signInTime = 100, rowSignOutTime = None, status = SignedIn\<rparr>,
      \<lparr>name = ''Alice'', signInTime = 50, rowSignOutTime = Some 60, status = SignedOut\<rparr>]"
    by (simp add: oneInOneOut_def sessionLog_def allActiveSessions_def allPastSessions_def
        sessionCompare_def)
  have e: "sessionLog (initialState codeUnitCompare) = []"
    by (simp add: initialState_def sessionLog_def allActiveSessions_def allPastSessions_def)
  have t: "taskNumber oneInOneOut = []" "taskNumber (initialState codeUnitCompare) = []"
    by (simp_all add: oneInOneOut_def initialState_def)
  have m: "maxNameLength (sessionLog oneInOneOut) = 6"
    by (simp add: s maxNameLength_def)
  show ?thesis
    using exportContent_layout [of oneInOneOut sampleLocale "''1/1/2026, 10:05:00 AM''"]
      exportContent_layout [of "initialState codeUnitCompare" sampleLocale
        "''1/1/2026, 10:05:00 AM''"]
    by (simp add: s e t m exportContent_def exportHeader_def exportRow_def padEnd_def
        repeat_def nl_def noRecordsMessage_def sampleLocale_def numeral_eq_Suc)
qed

end
